theory Spec2Isabelle
  imports Complex_Main
begin

section \<open>Numbers\<close>

text \<open>
  The program computes with the \<^verbatim>\<open>number\<close> type of TypeScript. The model keeps its
  three non-finite values and computes exactly on the finite ones: a finite value is a
  real, there is no rounding, no overflow to infinity and a single zero (read as the
  positive zero where the sign of a zero decides a result). Division by zero, the
  comparisons with \<^verbatim>\<open>NaN\<close> and the arithmetic of the infinities follow the language.
  The rounding of each operation to a double is added in the section on binary64
  arithmetic, for the properties that depend on it.
\<close>

datatype number = Fin real | PosInf | NegInf | NaN

fun nadd :: "number \<Rightarrow> number \<Rightarrow> number" where
  "nadd (Fin a) (Fin b) = Fin (a + b)"
| "nadd NaN _ = NaN"
| "nadd _ NaN = NaN"
| "nadd PosInf NegInf = NaN"
| "nadd NegInf PosInf = NaN"
| "nadd PosInf _ = PosInf"
| "nadd _ PosInf = PosInf"
| "nadd NegInf _ = NegInf"
| "nadd _ NegInf = NegInf"

fun nneg :: "number \<Rightarrow> number" where
  "nneg (Fin a) = Fin (- a)"
| "nneg PosInf = NegInf"
| "nneg NegInf = PosInf"
| "nneg NaN = NaN"

definition nsub :: "number \<Rightarrow> number \<Rightarrow> number" where
  "nsub a b = nadd a (nneg b)"

fun nmul :: "number \<Rightarrow> number \<Rightarrow> number" where
  "nmul (Fin a) (Fin b) = Fin (a * b)"
| "nmul NaN _ = NaN"
| "nmul _ NaN = NaN"
| "nmul (Fin a) PosInf = (if a = 0 then NaN else if 0 < a then PosInf else NegInf)"
| "nmul (Fin a) NegInf = (if a = 0 then NaN else if 0 < a then NegInf else PosInf)"
| "nmul PosInf (Fin b) = (if b = 0 then NaN else if 0 < b then PosInf else NegInf)"
| "nmul NegInf (Fin b) = (if b = 0 then NaN else if 0 < b then NegInf else PosInf)"
| "nmul PosInf PosInf = PosInf"
| "nmul PosInf NegInf = NegInf"
| "nmul NegInf PosInf = NegInf"
| "nmul NegInf NegInf = PosInf"

fun ndiv :: "number \<Rightarrow> number \<Rightarrow> number" where
  "ndiv (Fin a) (Fin b) =
     (if b \<noteq> 0 then Fin (a / b)
      else if a = 0 then NaN else if 0 < a then PosInf else NegInf)"
| "ndiv NaN _ = NaN"
| "ndiv _ NaN = NaN"
| "ndiv (Fin a) PosInf = Fin 0"
| "ndiv (Fin a) NegInf = Fin 0"
| "ndiv PosInf (Fin b) = (if 0 \<le> b then PosInf else NegInf)"
| "ndiv NegInf (Fin b) = (if 0 \<le> b then NegInf else PosInf)"
| "ndiv PosInf PosInf = NaN"
| "ndiv PosInf NegInf = NaN"
| "ndiv NegInf PosInf = NaN"
| "ndiv NegInf NegInf = NaN"

text \<open>\<^verbatim>\<open>a > b\<close>: false as soon as one side is \<^verbatim>\<open>NaN\<close>.\<close>

fun ngt :: "number \<Rightarrow> number \<Rightarrow> bool" where
  "ngt (Fin a) (Fin b) = (b < a)"
| "ngt NaN _ = False"
| "ngt _ NaN = False"
| "ngt PosInf PosInf = False"
| "ngt PosInf _ = True"
| "ngt _ PosInf = False"
| "ngt NegInf _ = False"
| "ngt _ NegInf = True"

definition nlt :: "number \<Rightarrow> number \<Rightarrow> bool" where
  "nlt a b = ngt b a"

text \<open>\<^verbatim>\<open>Math.max\<close> and \<^verbatim>\<open>Math.min\<close> of two arguments: \<^verbatim>\<open>NaN\<close> if one of them is.\<close>

definition nmax :: "number \<Rightarrow> number \<Rightarrow> number" where
  "nmax a b = (if a = NaN \<or> b = NaN then NaN else if ngt a b then a else b)"

definition nmin :: "number \<Rightarrow> number \<Rightarrow> number" where
  "nmin a b = (if a = NaN \<or> b = NaN then NaN else if ngt a b then b else a)"

fun nsqrt :: "number \<Rightarrow> number" where
  "nsqrt (Fin a) = (if 0 \<le> a then Fin (sqrt a) else NaN)"
| "nsqrt PosInf = PosInf"
| "nsqrt NegInf = NaN"
| "nsqrt NaN = NaN"

fun nlog :: "number \<Rightarrow> number" where
  "nlog (Fin a) = (if 0 < a then Fin (ln a) else if a = 0 then NegInf else NaN)"
| "nlog PosInf = PosInf"
| "nlog NegInf = NaN"
| "nlog NaN = NaN"

fun nexp :: "number \<Rightarrow> number" where
  "nexp (Fin a) = Fin (exp a)"
| "nexp PosInf = PosInf"
| "nexp NegInf = Fin 0"
| "nexp NaN = NaN"




section \<open>Types (\<^verbatim>\<open>src/core/types.ts\<close>)\<close>

record Viewport =
  centerRe :: number
  centerIm :: number
  width :: number
  height :: number





section \<open>Viewport utilities (\<^verbatim>\<open>src/core/viewport.ts\<close>)\<close>

definition createViewport :: "number \<Rightarrow> number \<Rightarrow> number \<Rightarrow> number \<Rightarrow> Viewport" where
  "createViewport cRe cIm w h = \<lparr>centerRe = cRe, centerIm = cIm, width = w, height = h\<rparr>"

definition resetViewport :: "number \<Rightarrow> Viewport" where
  "resetViewport aspectRatio =
     (let targetSpan = Fin 3;
          padding = Fin (105 / 100);
          w = nmul (nmax targetSpan (nmul targetSpan aspectRatio)) padding;
          h = ndiv w aspectRatio
      in createViewport (Fin (- (1 / 2))) (Fin 0) w h)"


definition complexToPixel ::
  "Viewport \<Rightarrow> number \<Rightarrow> number \<Rightarrow> number \<Rightarrow> number \<Rightarrow> number \<times> number" where
  "complexToPixel viewport re im cWidth cHeight =
     (let normalizedX =
            ndiv (nsub re (nsub (centerRe viewport) (ndiv (width viewport) (Fin 2))))
                 (width viewport);
          normalizedY =
            ndiv (nsub (nadd (centerIm viewport) (ndiv (height viewport) (Fin 2))) im)
                 (height viewport);
          x = nmul normalizedX cWidth;
          y = nmul normalizedY cHeight
      in (x, y))"



definition getZoomFactor :: "Viewport \<Rightarrow> number" where
  "getZoomFactor viewport =
     (let baseSpan = nmul (Fin 3) (Fin (105 / 100));
          visibleSpan = nmin (width viewport) (height viewport)
      in ndiv baseSpan visibleSpan)"


section \<open>Binary64 arithmetic\<close>

text \<open>
  The arithmetic of the program is that of IEEE-754 binary64: every operation returns
  its exact result rounded to the nearest double, ties to even. \<open>fl64\<close> rounds a real.
  The doubles around \<open>x\<close> are the multiples of \<open>ulp64 x\<close>, two to the power of the
  exponent of \<open>x\<close> minus \<open>52\<close>; the exponent is never below \<open>-1022\<close>, so that the
  subnormal range has the spacing \<open>2^-1074\<close> and a result of magnitude below \<open>2^-1075\<close>
  underflows to zero. \<open>round64\<close> rounds a number: a rounded magnitude of \<open>2^1024\<close> or more
  overflows to an infinity. There is a single zero, as in the section on numbers.
\<close>

definition roundTiesToEven :: "real \<Rightarrow> int" where
  "roundTiesToEven y =
     (let f = \<lfloor>y\<rfloor>
      in if y - of_int f < 1 / 2 then f
         else if 1 / 2 < y - of_int f then f + 1
         else if even f then f else f + 1)"

definition exponent64 :: "real \<Rightarrow> int" where
  "exponent64 x = max \<lfloor>log 2 \<bar>x\<bar>\<rfloor> (- 1022)"

definition ulp64 :: "real \<Rightarrow> real" where
  "ulp64 x = 2 powr of_int (exponent64 x - 52)"

definition fl64 :: "real \<Rightarrow> real" where
  "fl64 x = (if x = 0 then 0 else ulp64 x * of_int (roundTiesToEven (x / ulp64 x)))"

fun round64 :: "number \<Rightarrow> number" where
  "round64 (Fin x) =
     (if 2 ^ 1024 \<le> fl64 x then PosInf
      else if fl64 x \<le> - (2 ^ 1024) then NegInf
      else Fin (fl64 x))"
| "round64 PosInf = PosInf"
| "round64 NegInf = NegInf"
| "round64 NaN = NaN"

text \<open>
  The four operations of the program on doubles: the exact result, rounded.
\<close>

definition dadd :: "number \<Rightarrow> number \<Rightarrow> number" where
  "dadd a b = round64 (nadd a b)"

definition dsub :: "number \<Rightarrow> number \<Rightarrow> number" where
  "dsub a b = round64 (nsub a b)"

definition dmul :: "number \<Rightarrow> number \<Rightarrow> number" where
  "dmul a b = round64 (nmul a b)"

definition ddiv :: "number \<Rightarrow> number \<Rightarrow> number" where
  "ddiv a b = round64 (ndiv a b)"

text \<open>
  \<^verbatim>\<open>pixelToComplex\<close>, \<^verbatim>\<open>complexToPixel\<close> and \<^verbatim>\<open>zoomToRect\<close> of \<^verbatim>\<open>src/core/viewport.ts\<close>
  once more, line by line as above, with the rounding of every operation.
\<close>

definition pixelToComplex64 ::
  "Viewport \<Rightarrow> number \<Rightarrow> number \<Rightarrow> number \<Rightarrow> number \<Rightarrow> number \<times> number" where
  "pixelToComplex64 viewport pixelX pixelY cWidth cHeight =
     (let normalizedX = ddiv pixelX cWidth;
          normalizedY = ddiv pixelY cHeight;
          re = dadd (dsub (centerRe viewport) (ddiv (width viewport) (Fin 2)))
                    (dmul normalizedX (width viewport));
          im = dsub (dadd (centerIm viewport) (ddiv (height viewport) (Fin 2)))
                    (dmul normalizedY (height viewport))
      in (re, im))"

definition complexToPixel64 ::
  "Viewport \<Rightarrow> number \<Rightarrow> number \<Rightarrow> number \<Rightarrow> number \<Rightarrow> number \<times> number" where
  "complexToPixel64 viewport re im cWidth cHeight =
     (let normalizedX =
            ddiv (dsub re (dsub (centerRe viewport) (ddiv (width viewport) (Fin 2))))
                 (width viewport);
          normalizedY =
            ddiv (dsub (dadd (centerIm viewport) (ddiv (height viewport) (Fin 2))) im)
                 (height viewport);
          x = dmul normalizedX cWidth;
          y = dmul normalizedY cHeight
      in (x, y))"



section \<open>Escape-time kernel (\<^verbatim>\<open>src/core/mandelbrot.ts\<close>)\<close>

text \<open>
  The iteration budget and the loop counter are integers of the program (the settings
  give \<^verbatim>\<open>maxIterations\<close> as an integer); a budget of zero or below never enters the
  loop. Both functions declare the same constants: \<^verbatim>\<open>bailout = 4\<close>, compared with the
  squared magnitude, \<^verbatim>\<open>bailoutSq = bailout\<close> and, in \<^verbatim>\<open>smoothEscape\<close>,
  \<^verbatim>\<open>logBailout = Math.log(bailout)\<close>.
\<close>

definition bailout :: number where
  "bailout = Fin 4"

definition bailoutSq :: number where
  "bailoutSq = bailout"

definition logBailout :: number where
  "logBailout = nlog bailout"

function escapeLoop :: "number \<Rightarrow> number \<Rightarrow> int \<Rightarrow> number \<Rightarrow> number \<Rightarrow> int \<Rightarrow> int" where
  "escapeLoop cRe cIm maxIterations zRe zIm i =
     (if i < maxIterations then
        (let zReSq = nmul zRe zRe;
             zImSq = nmul zIm zIm;
             magnitudeSq = nadd zReSq zImSq
         in if ngt magnitudeSq bailoutSq then i
            else (let temp = nadd (nsub zReSq zImSq) cRe;
                      zIm' = nadd (nmul (nmul (Fin 2) zRe) zIm) cIm;
                      zRe' = temp
                  in escapeLoop cRe cIm maxIterations zRe' zIm' (i + 1)))
      else maxIterations)"
  by pat_completeness auto
termination
  by (relation "measure (\<lambda>(cRe, cIm, maxIterations, zRe, zIm, i). nat (maxIterations - i))") auto

definition escapeIterations :: "number \<Rightarrow> number \<Rightarrow> int \<Rightarrow> int" where
  "escapeIterations cRe cIm maxIterations = escapeLoop cRe cIm maxIterations (Fin 0) (Fin 0) 0"

function smoothLoop :: "number \<Rightarrow> number \<Rightarrow> int \<Rightarrow> number \<Rightarrow> number \<Rightarrow> int \<Rightarrow> number" where
  "smoothLoop cRe cIm maxIterations zRe zIm i =
     (if i < maxIterations then
        (let zReSq = nmul zRe zRe;
             zImSq = nmul zIm zIm;
             magnitudeSq = nadd zReSq zImSq
         in if ngt magnitudeSq bailoutSq
            then (let magnitude = nsqrt magnitudeSq;
                      logMag = nlog magnitude;
                      smooth = nsub (nadd (Fin (of_int i)) (Fin 1)) (ndiv logBailout logMag)
                  in nmin smooth (Fin (of_int maxIterations)))
            else (let temp = nadd (nsub zReSq zImSq) cRe;
                      zIm' = nadd (nmul (nmul (Fin 2) zRe) zIm) cIm;
                      zRe' = temp
                  in smoothLoop cRe cIm maxIterations zRe' zIm' (i + 1)))
      else Fin (of_int maxIterations))"
  by pat_completeness auto
termination
  by (relation "measure (\<lambda>(cRe, cIm, maxIterations, zRe, zIm, i). nat (maxIterations - i))") auto

definition smoothEscape :: "number \<Rightarrow> number \<Rightarrow> int \<Rightarrow> number" where
  "smoothEscape cRe cIm maxIterations = smoothLoop cRe cIm maxIterations (Fin 0) (Fin 0) 0"

definition batchIterations :: "(number \<times> number) list \<Rightarrow> int \<Rightarrow> bool \<Rightarrow> number list" where
  "batchIterations points maxIterations smooth =
     (if smooth then map (\<lambda>p. smoothEscape (fst p) (snd p) maxIterations) points
      else map (\<lambda>p. Fin (of_int (escapeIterations (fst p) (snd p) maxIterations))) points)"

subsection \<open>The orbit of a point\<close>

text \<open>
  \<open>orbit cRe cIm n\<close> is the value of \<^verbatim>\<open>(zRe, zIm)\<close> when the loop tests the bailout for
  the counter \<open>n\<close>: zero at first, then one update by the body of the loop each time.
  \<open>exceeds cRe cIm n\<close> is the bailout test of the loop on that value.
\<close>

fun orbit :: "number \<Rightarrow> number \<Rightarrow> nat \<Rightarrow> number \<times> number" where
  "orbit cRe cIm 0 = (Fin 0, Fin 0)"
| "orbit cRe cIm (Suc n) =
     (let zRe = fst (orbit cRe cIm n);
          zIm = snd (orbit cRe cIm n)
      in (nadd (nsub (nmul zRe zRe) (nmul zIm zIm)) cRe,
          nadd (nmul (nmul (Fin 2) zRe) zIm) cIm))"

definition magnitudeSq :: "number \<times> number \<Rightarrow> number" where
  "magnitudeSq z = nadd (nmul (fst z) (fst z)) (nmul (snd z) (snd z))"

definition exceeds :: "number \<Rightarrow> number \<Rightarrow> nat \<Rightarrow> bool" where
  "exceeds cRe cIm n = ngt (magnitudeSq (orbit cRe cIm n)) bailoutSq"


section \<open>Render controller (\<^verbatim>\<open>src/renderer/renderController.ts\<close>)\<close>

datatype Quality = Low | Medium | High | Ultra

datatype DebugMode = DebugNone | DebugGradient | DebugGrayscale

record RenderSettings =
  maxIterations :: int
  smoothColoring :: bool
  gamma :: number
  insideColor :: "number \<times> number \<times> number"
  palette :: string
  quality :: Quality
  progressiveRefinement :: bool
  reduceQualityWhileDragging :: bool
  debugMode :: "DebugMode option"
  zoomFactor :: "number option"

fun getQualityIterations :: "Quality \<Rightarrow> int" where
  "getQualityIterations Low = 64"
| "getQualityIterations Medium = 128"
| "getQualityIterations High = 256"
| "getQualityIterations Ultra = 512"

definition getProgressiveIterations :: "Quality \<Rightarrow> bool \<Rightarrow> int" where
  "getProgressiveIterations q isDragging =
     (let base = getQualityIterations q
      in if isDragging then max 32 (base div 4) else base)"

subsection \<open>The collaborators: renderer, animation frames, timers\<close>

text \<open>
  The controller calls the renderer, the completion callbacks of its callers and the
  scheduling primitives of the browser. The model records the first two as a list of
  effects, in the order of the calls, and keeps the pending animation-frame callbacks
  and the pending timeouts as two lists of handle and callback. A handle is a positive
  integer, fresh at each request, as the browser gives it. A completion callback is
  named by a number its caller chooses. The renderer and the completion callbacks are
  taken to return normally and not to call the controller back.
\<close>

datatype Effect =
    RendererRender Viewport RenderSettings
  | RendererUpdatePalette string
  | OnComplete nat Viewport

text \<open>
  The functions handed to \<^verbatim>\<open>requestAnimationFrame\<close>, each with the variables of the
  enclosing call that it reads: \<open>ZoomStep\<close> is \<^verbatim>\<open>step\<close> of \<^verbatim>\<open>animateZoom\<close> (viewport,
  settings, target, aspectRatio, onComplete, startTime), \<open>HoldStep\<close> is \<^verbatim>\<open>step\<close> of
  \<^verbatim>\<open>startHoldZoom\<close> (viewport, settings, target, aspectRatio, startTime), \<open>RenderFrame\<close>
  is the arrow function of \<^verbatim>\<open>render\<close> and of \<^verbatim>\<open>scheduleRender\<close>. The one function
  handed to \<^verbatim>\<open>setTimeout\<close> is the arrow function of the debounce timer.
\<close>

datatype FrameCallback =
    ZoomStep Viewport RenderSettings "number \<times> number" number "nat option" number
  | HoldStep Viewport RenderSettings "number \<times> number" number number
  | RenderFrame

datatype TimerCallback = DebounceExpired

text \<open>
  The state: the seven mutable fields of the controller, under their names, then the
  pending frame callbacks and timeouts of the browser, the next handle of each, and the
  effects so far. \<open>initial\<close> is the state after the constructor, with nothing pending.
\<close>

record World =
  renderRequestId :: "nat option"
  debounceTimeoutId :: "nat option"
  animationFrameId :: "nat option"
  holdZoomFrameId :: "nat option"
  holdLastViewport :: "Viewport option"
  lastViewport :: "Viewport option"
  lastSettings :: "RenderSettings option"
  frames :: "(nat \<times> FrameCallback) list"
  timers :: "(nat \<times> TimerCallback) list"
  nextFrame :: nat
  nextTimer :: nat
  effects :: "Effect list"

definition initial :: World where
  "initial =
     \<lparr>renderRequestId = None, debounceTimeoutId = None, animationFrameId = None,
      holdZoomFrameId = None, holdLastViewport = None, lastViewport = None,
      lastSettings = None, frames = [], timers = [], nextFrame = 1, nextTimer = 1,
      effects = []\<rparr>"

definition requestAnimationFrame :: "FrameCallback \<Rightarrow> World \<Rightarrow> nat \<times> World" where
  "requestAnimationFrame cb s =
     (nextFrame s, s\<lparr>frames := frames s @ [(nextFrame s, cb)], nextFrame := nextFrame s + 1\<rparr>)"

definition cancelAnimationFrame :: "nat \<Rightarrow> World \<Rightarrow> World" where
  "cancelAnimationFrame h s = s\<lparr>frames := filter (\<lambda>p. fst p \<noteq> h) (frames s)\<rparr>"

definition setTimeout :: "TimerCallback \<Rightarrow> World \<Rightarrow> nat \<times> World" where
  "setTimeout cb s =
     (nextTimer s, s\<lparr>timers := timers s @ [(nextTimer s, cb)], nextTimer := nextTimer s + 1\<rparr>)"

definition clearTimeout :: "nat \<Rightarrow> World \<Rightarrow> World" where
  "clearTimeout h s = s\<lparr>timers := filter (\<lambda>p. fst p \<noteq> h) (timers s)\<rparr>"

definition rendererRender :: "Viewport \<Rightarrow> RenderSettings \<Rightarrow> World \<Rightarrow> World" where
  "rendererRender v st s = s\<lparr>effects := effects s @ [RendererRender v st]\<rparr>"

definition rendererUpdatePalette :: "string \<Rightarrow> World \<Rightarrow> World" where
  "rendererUpdatePalette p s = s\<lparr>effects := effects s @ [RendererUpdatePalette p]\<rparr>"

text \<open>\<^verbatim>\<open>if (onComplete) { onComplete(viewport); }\<close>\<close>

definition callOnComplete :: "nat option \<Rightarrow> Viewport \<Rightarrow> World \<Rightarrow> World" where
  "callOnComplete onComplete v s =
     (case onComplete of
        None \<Rightarrow> s
      | Some k \<Rightarrow> s\<lparr>effects := effects s @ [OnComplete k v]\<rparr>)"

text \<open>\<^verbatim>\<open>if (handle) { ... }\<close>: the body runs for a handle that is neither null nor zero.\<close>

definition ifHandle :: "nat option \<Rightarrow> (nat \<Rightarrow> World \<Rightarrow> World) \<Rightarrow> World \<Rightarrow> World" where
  "ifHandle handle body s =
     (case handle of
        None \<Rightarrow> s
      | Some h \<Rightarrow> if h \<noteq> 0 then body h s else s)"

subsection \<open>The methods\<close>

definition cancel :: "World \<Rightarrow> World" where
  "cancel s =
     (let s1 = ifHandle (holdZoomFrameId s)
                 (\<lambda>h w. (cancelAnimationFrame h w)\<lparr>holdZoomFrameId := None\<rparr>) s;
          s2 = s1\<lparr>holdLastViewport := None\<rparr>;
          s3 = ifHandle (animationFrameId s2)
                 (\<lambda>h w. (cancelAnimationFrame h w)\<lparr>animationFrameId := None\<rparr>) s2;
          s4 = ifHandle (renderRequestId s3)
                 (\<lambda>h w. (cancelAnimationFrame h w)\<lparr>renderRequestId := None\<rparr>) s3
      in ifHandle (debounceTimeoutId s4)
           (\<lambda>h w. (clearTimeout h w)\<lparr>debounceTimeoutId := None\<rparr>) s4)"

definition easeInOutQuad :: "number \<Rightarrow> number" where
  "easeInOutQuad t =
     (if nlt t (Fin (1 / 2)) then nmul (nmul (Fin 2) t) t
      else nadd (Fin (- 1)) (nmul (nsub (Fin 4) (nmul (Fin 2) t)) t))"

text \<open>
  The body of \<^verbatim>\<open>step\<close> in \<^verbatim>\<open>animateZoom\<close>, run with the time of the frame. The constants
  that \<^verbatim>\<open>animateZoom\<close> computes before it defines \<^verbatim>\<open>step\<close> (\<^verbatim>\<open>zoomFactor\<close>,
  \<^verbatim>\<open>durationMs\<close>, \<^verbatim>\<open>targetWidth\<close>, \<^verbatim>\<open>animSettings\<close>) depend on its arguments only and
  are computed here, where \<^verbatim>\<open>step\<close> reads them. The debounce delay of 200 ms and the
  pace of the frames are left to the events: a pending callback may run at any time.
\<close>

definition zoomStep ::
  "Viewport \<Rightarrow> RenderSettings \<Rightarrow> number \<times> number \<Rightarrow> number \<Rightarrow> nat option \<Rightarrow> number \<Rightarrow>
   number \<Rightarrow> World \<Rightarrow> World" where
  "zoomStep start settings target aspectRatio onComplete startTime now s =
     (let zoomFactor' = (case zoomFactor settings of None \<Rightarrow> Fin 2 | Some z \<Rightarrow> z);
          durationMs = Fin 450;
          targetWidth = ndiv (width start) zoomFactor';
          progressiveIterations = getProgressiveIterations (quality settings) True;
          animSettings = settings\<lparr>maxIterations := progressiveIterations\<rparr>;
          t = nmin (Fin 1) (ndiv (nsub now startTime) durationMs);
          e = easeInOutQuad t;
          cRe = nadd (centerRe start) (nmul (nsub (fst target) (centerRe start)) e);
          cIm = nadd (centerIm start) (nmul (nsub (snd target) (centerIm start)) e);
          w = nadd (width start) (nmul (nsub targetWidth (width start)) e);
          h = ndiv w aspectRatio;
          currentViewport = \<lparr>centerRe = cRe, centerIm = cIm, width = w, height = h\<rparr>;
          s1 = rendererRender currentViewport animSettings s
      in if nlt t (Fin 1)
         then (let (handle, s2) =
                     requestAnimationFrame
                       (ZoomStep start settings target aspectRatio onComplete startTime) s1
               in s2\<lparr>animationFrameId := Some handle\<rparr>)
         else (let s2 = rendererRender currentViewport settings s1;
                   s3 = s2\<lparr>lastViewport := Some currentViewport\<rparr>;
                   s4 = s3\<lparr>lastSettings := Some settings\<rparr>;
                   s5 = s4\<lparr>animationFrameId := None\<rparr>
               in callOnComplete onComplete currentViewport s5))"

definition animateZoom ::
  "Viewport \<Rightarrow> RenderSettings \<Rightarrow> number \<times> number \<Rightarrow> number \<Rightarrow> nat option \<Rightarrow> number \<Rightarrow>
   World \<Rightarrow> World" where
  "animateZoom viewport settings target aspectRatio onComplete now s =
     (let s1 = cancel s;
          startTime = now;
          start = viewport;
          s2 = rendererUpdatePalette (palette settings) s1;
          (handle, s3) =
            requestAnimationFrame
              (ZoomStep start settings target aspectRatio onComplete startTime) s2
      in s3\<lparr>animationFrameId := Some handle\<rparr>)"

text \<open>
  The body of \<^verbatim>\<open>step\<close> in \<^verbatim>\<open>startHoldZoom\<close>, with the constants \<^verbatim>\<open>zoomRatePerSec\<close> and
  \<^verbatim>\<open>animSettings\<close> of the enclosing call.
\<close>

definition holdStep ::
  "Viewport \<Rightarrow> RenderSettings \<Rightarrow> number \<times> number \<Rightarrow> number \<Rightarrow> number \<Rightarrow>
   number \<Rightarrow> World \<Rightarrow> World" where
  "holdStep start settings target aspectRatio startTime now s =
     (let zoomRatePerSec = Fin (16 / 10);
          progressiveIterations = getProgressiveIterations (quality settings) True;
          animSettings = settings\<lparr>maxIterations := progressiveIterations\<rparr>;
          elapsedSec = nmax (Fin 0) (ndiv (nsub now startTime) (Fin 1000));
          factor = nexp (nmul (nneg zoomRatePerSec) elapsedSec);
          w = nmul (width start) factor;
          h = ndiv w aspectRatio;
          currentViewport =
            \<lparr>centerRe = fst target, centerIm = snd target, width = w, height = h\<rparr>;
          s1 = s\<lparr>holdLastViewport := Some currentViewport\<rparr>;
          s2 = rendererRender currentViewport animSettings s1;
          (handle, s3) =
            requestAnimationFrame (HoldStep start settings target aspectRatio startTime) s2
      in s3\<lparr>holdZoomFrameId := Some handle\<rparr>)"

definition startHoldZoom ::
  "Viewport \<Rightarrow> RenderSettings \<Rightarrow> number \<times> number \<Rightarrow> number \<Rightarrow> number \<Rightarrow> World \<Rightarrow> World" where
  "startHoldZoom viewport settings target aspectRatio now s =
     (let s1 = cancel s;
          startTime = now;
          start = viewport;
          s2 = rendererUpdatePalette (palette settings) s1;
          (handle, s3) =
            requestAnimationFrame (HoldStep start settings target aspectRatio startTime) s2
      in s3\<lparr>holdZoomFrameId := Some handle\<rparr>)"

definition stopHoldZoom :: "RenderSettings \<Rightarrow> nat option \<Rightarrow> World \<Rightarrow> World" where
  "stopHoldZoom settings onComplete s =
     (let s1 = ifHandle (holdZoomFrameId s)
                 (\<lambda>h w. (cancelAnimationFrame h w)\<lparr>holdZoomFrameId := None\<rparr>) s;
          s2 = (case holdLastViewport s1 of
                  None \<Rightarrow> s1
                | Some v \<Rightarrow>
                    (let s3 = rendererRender v settings s1;
                         s4 = s3\<lparr>lastViewport := holdLastViewport s3\<rparr>;
                         s5 = s4\<lparr>lastSettings := Some settings\<rparr>
                     in callOnComplete onComplete v s5))
      in s2\<lparr>holdLastViewport := None\<rparr>)"

definition startInteraction :: "World \<Rightarrow> World" where
  "startInteraction s =
     ifHandle (debounceTimeoutId s)
       (\<lambda>h w. (clearTimeout h w)\<lparr>debounceTimeoutId := None\<rparr>) s"

definition performRender :: "World \<Rightarrow> World" where
  "performRender s =
     (case (lastViewport s, lastSettings s) of
        (Some v, Some settings) \<Rightarrow>
          rendererRender v settings (rendererUpdatePalette (palette settings) s)
      | _ \<Rightarrow> s)"

definition scheduleRender :: "World \<Rightarrow> World" where
  "scheduleRender s =
     (let s1 = ifHandle (renderRequestId s) (\<lambda>h w. cancelAnimationFrame h w) s;
          (handle, s2) = requestAnimationFrame RenderFrame s1
      in s2\<lparr>renderRequestId := Some handle\<rparr>)"

definition endInteraction :: "World \<Rightarrow> World" where
  "endInteraction s = scheduleRender s"

text \<open>\<^verbatim>\<open>render(viewport, settings, debounce)\<close>\<close>

definition render :: "Viewport \<Rightarrow> RenderSettings \<Rightarrow> bool \<Rightarrow> World \<Rightarrow> World" where
  "render viewport settings debounce s =
     (let s1 = s\<lparr>lastViewport := Some viewport\<rparr>;
          s2 = s1\<lparr>lastSettings := Some settings\<rparr>
      in if debounce
         then (let s3 = ifHandle (debounceTimeoutId s2) (\<lambda>h w. clearTimeout h w) s2;
                   (handle, s4) = setTimeout DebounceExpired s3
               in s4\<lparr>debounceTimeoutId := Some handle\<rparr>)
         else (let s3 = ifHandle (renderRequestId s2) (\<lambda>h w. cancelAnimationFrame h w) s2;
                   (handle, s4) = requestAnimationFrame RenderFrame s3
               in s4\<lparr>renderRequestId := Some handle\<rparr>))"

subsection \<open>Running the controller\<close>

text \<open>
  What a callback does when the browser runs it: a frame callback receives the time of
  the frame, a timeout callback receives nothing.
\<close>

fun runFrameCallback :: "FrameCallback \<Rightarrow> number \<Rightarrow> World \<Rightarrow> World" where
  "runFrameCallback (ZoomStep start settings target aspectRatio onComplete startTime) now s =
     zoomStep start settings target aspectRatio onComplete startTime now s"
| "runFrameCallback (HoldStep start settings target aspectRatio startTime) now s =
     holdStep start settings target aspectRatio startTime now s"
| "runFrameCallback RenderFrame now s = (performRender s)\<lparr>renderRequestId := None\<rparr>"

fun runTimerCallback :: "TimerCallback \<Rightarrow> World \<Rightarrow> World" where
  "runTimerCallback DebounceExpired s = (performRender s)\<lparr>debounceTimeoutId := None\<rparr>"

text \<open>
  The browser runs the pending frame callback with handle \<open>h\<close> at time \<open>now\<close>, or lets
  the pending timeout \<open>h\<close> expire. The callback leaves the pending list before it runs;
  a handle that is not pending (never given, already run, or cancelled) runs nothing.
\<close>

definition frameFires :: "nat \<Rightarrow> number \<Rightarrow> World \<Rightarrow> World" where
  "frameFires h now s =
     (case map_of (frames s) h of
        None \<Rightarrow> s
      | Some cb \<Rightarrow> runFrameCallback cb now (s\<lparr>frames := filter (\<lambda>p. fst p \<noteq> h) (frames s)\<rparr>))"

definition timeoutFires :: "nat \<Rightarrow> World \<Rightarrow> World" where
  "timeoutFires h s =
     (case map_of (timers s) h of
        None \<Rightarrow> s
      | Some cb \<Rightarrow> runTimerCallback cb (s\<lparr>timers := filter (\<lambda>p. fst p \<noteq> h) (timers s)\<rparr>))"

text \<open>
  The calls of the interaction layer and the ticks of the browser. \<open>AnimateZoom\<close> and
  \<open>StartHoldZoom\<close> carry the reading of \<^verbatim>\<open>performance.now()\<close> that the method takes.
\<close>

datatype Event =
    AnimateZoom Viewport RenderSettings "number \<times> number" number "nat option" number
  | StartHoldZoom Viewport RenderSettings "number \<times> number" number number
  | StopHoldZoom RenderSettings "nat option"
  | StartInteraction
  | EndInteraction
  | Render Viewport RenderSettings bool
  | Cancel
  | FrameFires nat number
  | TimeoutFires nat

fun apply_event :: "Event \<Rightarrow> World \<Rightarrow> World" where
  "apply_event (AnimateZoom viewport settings target aspectRatio onComplete now) s =
     animateZoom viewport settings target aspectRatio onComplete now s"
| "apply_event (StartHoldZoom viewport settings target aspectRatio now) s =
     startHoldZoom viewport settings target aspectRatio now s"
| "apply_event (StopHoldZoom settings onComplete) s = stopHoldZoom settings onComplete s"
| "apply_event StartInteraction s = startInteraction s"
| "apply_event EndInteraction s = endInteraction s"
| "apply_event (Render viewport settings debounce) s = render viewport settings debounce s"
| "apply_event Cancel s = cancel s"
| "apply_event (FrameFires h now) s = frameFires h now s"
| "apply_event (TimeoutFires h) s = timeoutFires h s"

text \<open>The state after a sequence of events, the first event first.\<close>

fun run :: "Event list \<Rightarrow> World \<Rightarrow> World" where
  "run [] s = s"
| "run (e # es) s = run es (apply_event e s)"


text \<open>
  The viewport and the settings that the store of the application starts with
  (\<^verbatim>\<open>src/state/store.ts\<close>); they serve as sample inputs.
\<close>

definition initialViewport :: Viewport where
  "initialViewport = resetViewport (ndiv (Fin 16) (Fin 9))"

definition initialRenderSettings :: RenderSettings where
  "initialRenderSettings =
     \<lparr>maxIterations = 256, smoothColoring = True, gamma = Fin 1,
      insideColor = (Fin (25 / 100), Fin 1, Fin (1 / 10)), palette = ''classic'',
      quality = High, progressiveRefinement = True, reduceQualityWhileDragging = True,
      debugMode = Some DebugNone, zoomFactor = Some (Fin 2)\<rparr>"

subsection \<open>Timing sources\<close>

text \<open>
  A timing source is a pending callback: an armed debounce timer, or the pending frame
  of one of the three per-frame drivers. \<open>running k s\<close> counts the pending frames of
  the driver \<open>k\<close>, \<open>activeSources s\<close> counts all pending callbacks.
\<close>

datatype Driver = ZoomAnimation | HoldZoomLoop | ScheduledRender

fun driverOf :: "FrameCallback \<Rightarrow> Driver" where
  "driverOf (ZoomStep start settings target aspectRatio onComplete startTime) = ZoomAnimation"
| "driverOf (HoldStep start settings target aspectRatio startTime) = HoldZoomLoop"
| "driverOf RenderFrame = ScheduledRender"

definition running :: "Driver \<Rightarrow> World \<Rightarrow> nat" where
  "running k s = length (filter (\<lambda>p. driverOf (snd p) = k) (frames s))"



text \<open>The field of the controller that holds the handle of a driver.\<close>

fun handleOf :: "Driver \<Rightarrow> World \<Rightarrow> nat option" where
  "handleOf ZoomAnimation s = animationFrameId s"
| "handleOf HoldZoomLoop s = holdZoomFrameId s"
| "handleOf ScheduledRender s = renderRequestId s"

text \<open>
  The invariant of the reachable states: every pending callback is the one whose handle
  the controller holds in the field of its kind, and the handles are positive, below
  the next fresh one and different from each other.
\<close>

definition tracked :: "World \<Rightarrow> bool" where
  "tracked s =
     (0 < nextFrame s \<and> 0 < nextTimer s \<and>
      (\<forall>p \<in> set (frames s).
         0 < fst p \<and> fst p < nextFrame s \<and> handleOf (driverOf (snd p)) s = Some (fst p)) \<and>
      distinct (map fst (frames s)) \<and>
      (\<forall>p \<in> set (timers s).
         0 < fst p \<and> fst p < nextTimer s \<and> debounceTimeoutId s = Some (fst p)) \<and>
      distinct (map fst (timers s)))"








section \<open>Vocabulary of the properties\<close>





text \<open>\<open>approx a r tol\<close>: the number \<open>a\<close> is finite and within \<open>tol\<close> of \<open>r\<close>.\<close>

definition approx :: "number \<Rightarrow> real \<Rightarrow> real \<Rightarrow> bool" where
  "approx a r tol = (case a of Fin v \<Rightarrow> \<bar>v - r\<bar> \<le> tol | _ \<Rightarrow> False)"

text \<open>
  Numbers of moderate size: \<open>moderate a\<close> is a finite number of magnitude at most
  \<open>2^100\<close>, \<open>moderateSpan a\<close> a finite number between \<open>2^-100\<close> and \<open>2^100\<close>. A moderate
  viewport has a moderate centre and moderate spans, a moderate selection rectangle a
  moderate position and moderate spans, a moderate canvas moderate dimensions.
\<close>

fun moderate :: "number \<Rightarrow> bool" where
  "moderate (Fin a) = (\<bar>a\<bar> \<le> 2 ^ 100)"
| "moderate _ = False"

fun moderateSpan :: "number \<Rightarrow> bool" where
  "moderateSpan (Fin a) = (1 / 2 ^ 100 \<le> a \<and> a \<le> 2 ^ 100)"
| "moderateSpan _ = False"

definition moderateViewport :: "Viewport \<Rightarrow> bool" where
  "moderateViewport v =
     (moderate (centerRe v) \<and> moderate (centerIm v) \<and>
      moderateSpan (width v) \<and> moderateSpan (height v))"



text \<open>
  The two round trips in binary64: from a pixel to the plane and back, and from a
  plane point to the pixels and back.
\<close>

definition pixelRoundTrip64 ::
  "Viewport \<Rightarrow> number \<Rightarrow> number \<Rightarrow> number \<Rightarrow> number \<Rightarrow> number \<times> number" where
  "pixelRoundTrip64 v pixelX pixelY cWidth cHeight =
     (let c = pixelToComplex64 v pixelX pixelY cWidth cHeight
      in complexToPixel64 v (fst c) (snd c) cWidth cHeight)"

definition planeRoundTrip64 ::
  "Viewport \<Rightarrow> number \<Rightarrow> number \<Rightarrow> number \<Rightarrow> number \<Rightarrow> number \<times> number" where
  "planeRoundTrip64 v re im cWidth cHeight =
     (let p = complexToPixel64 v re im cWidth cHeight
      in pixelToComplex64 v (fst p) (snd p) cWidth cHeight)"

text \<open>
  \<open>rounds \<eta> r t\<close>: the value \<open>r\<close> is the exact result \<open>t\<close> up to the relative error \<open>2^-53\<close>
  of one rounding and the absolute error \<open>\<eta> / 2^53\<close> of an underflow.
\<close>

definition rounds :: "real \<Rightarrow> real \<Rightarrow> real \<Rightarrow> bool" where
  "rounds \<eta> r t = (\<bar>r - t\<bar> \<le> (\<bar>t\<bar> + \<eta>) / 2 ^ 53)"


fun resetsHold :: "Event \<Rightarrow> bool" where
  "resetsHold (StartHoldZoom viewport settings target aspectRatio now) = True"
| "resetsHold (AnimateZoom viewport settings target aspectRatio onComplete now) = True"
| "resetsHold (StopHoldZoom settings onComplete) = True"
| "resetsHold Cancel = True"
| "resetsHold _ = False"

fun runsHoldFrame :: "Event \<Rightarrow> World \<Rightarrow> bool" where
  "runsHoldFrame (FrameFires h now) s =
     (case map_of (frames s) h of
        None \<Rightarrow> False
      | Some cb \<Rightarrow> driverOf cb = HoldZoomLoop)"
| "runsHoldFrame _ s = False"

fun noHoldFrame :: "Event list \<Rightarrow> World \<Rightarrow> bool" where
  "noHoldFrame [] s = True"
| "noHoldFrame (e # es) s = (\<not> runsHoldFrame e s \<and> noHoldFrame es (apply_event e s))"



definition weakened :: "World \<Rightarrow> World \<Rightarrow> bool" where
  "weakened s' s =
     (nextFrame s' = nextFrame s \<and>
      (\<forall>k. handleOf k s' = None \<or> handleOf k s' = handleOf k s))"


section \<open>Rounding to binary64\<close>

text \<open>
  A rounded value is within half a unit in the last place of the exact one, hence within
  the relative error \<open>2^-53\<close> in the normal range and within \<open>2^-1075\<close> below it.
\<close>

lemma roundTiesToEven_error: "\<bar>of_int (roundTiesToEven y) - y\<bar> \<le> 1 / 2"
  unfolding roundTiesToEven_def Let_def by (auto; linarith)

lemma roundTiesToEven_of_int [simp]: "roundTiesToEven (of_int m) = m"
  unfolding roundTiesToEven_def Let_def by simp

lemma ulp64_pos: "0 < ulp64 x"
  unfolding ulp64_def by simp

lemma fl64_ulp: "\<bar>fl64 x - x\<bar> \<le> ulp64 x / 2"
proof (cases "x = 0")
  case True
  then show ?thesis using ulp64_pos [of x] by (simp add: fl64_def)
next
  case False
  have q: "0 < ulp64 x" by (rule ulp64_pos)
  have "fl64 x - x = ulp64 x * (of_int (roundTiesToEven (x / ulp64 x)) - x / ulp64 x)"
    using False q by (simp add: fl64_def field_simps)
  then have "\<bar>fl64 x - x\<bar> = ulp64 x * \<bar>of_int (roundTiesToEven (x / ulp64 x)) - x / ulp64 x\<bar>"
    using q by (simp add: abs_mult)
  also have "\<dots> \<le> ulp64 x * (1 / 2)"
    using roundTiesToEven_error [of "x / ulp64 x"] q by (intro mult_left_mono) simp_all
  finally show ?thesis by simp
qed

lemma ulp64_le:
  assumes "x \<noteq> 0"
  shows "ulp64 x \<le> (\<bar>x\<bar> + 1 / 2 ^ 1022) / 2 ^ 52"
proof (cases "- 1022 \<le> \<lfloor>log 2 \<bar>x\<bar>\<rfloor>")
  case True
  then have e: "exponent64 x = \<lfloor>log 2 \<bar>x\<bar>\<rfloor>" by (simp add: exponent64_def)
  have "of_int \<lfloor>log 2 \<bar>x\<bar>\<rfloor> \<le> log 2 \<bar>x\<bar>" by simp
  then have "2 powr of_int \<lfloor>log 2 \<bar>x\<bar>\<rfloor> \<le> \<bar>x\<bar>"
    using assms by (simp add: powr_le_iff)
  moreover have "ulp64 x = 2 powr of_int \<lfloor>log 2 \<bar>x\<bar>\<rfloor> / 2 ^ 52"
    unfolding ulp64_def e by (simp add: powr_diff)
  ultimately show ?thesis by (simp add: field_simps)
next
  case False
  then have e: "exponent64 x = - 1022" by (simp add: exponent64_def)
  have "ulp64 x = 1 / 2 ^ 1022 / 2 ^ 52"
    unfolding ulp64_def e by (simp add: powr_minus_divide)
  then show ?thesis by (simp add: field_simps)
qed

lemma fl64_zero [simp]: "fl64 0 = 0"
  by (simp add: fl64_def)

lemma fl64_error: "\<bar>fl64 x - x\<bar> \<le> (\<bar>x\<bar> + 1 / 2 ^ 1022) / 2 ^ 53"
proof (cases "x = 0")
  case True
  then show ?thesis by simp
next
  case False
  have "\<bar>fl64 x - x\<bar> \<le> ulp64 x / 2" by (rule fl64_ulp)
  also have "\<dots> \<le> (\<bar>x\<bar> + 1 / 2 ^ 1022) / 2 ^ 52 / 2"
    using ulp64_le [OF False] by simp
  finally show ?thesis by simp
qed

lemma exponent64_normal:
  assumes "2 ^ 52 \<le> \<bar>x\<bar> * 2 ^ k" and "\<bar>x\<bar> * 2 ^ k < 2 ^ 53" and "k \<le> 1074"
  shows "exponent64 x = 52 - int k"
proof -
  have x: "0 < \<bar>x\<bar>" using assms(1) by (cases "x = 0") auto
  have p: "(2::real) powr of_int (52 - int k) = 2 ^ 52 / 2 ^ k"
    by (simp add: powr_diff powr_realpow)
  have p': "(2::real) powr of_int (52 - int k + 1) = 2 ^ 53 / 2 ^ k"
    by (simp add: powr_diff powr_add powr_realpow)
  have q: "(2::real) powr (52 - real k) = 2 ^ 52 / 2 ^ k"
    by (simp add: powr_diff powr_realpow)
  have q': "(2::real) powr (53 - real k) = 2 ^ 53 / 2 ^ k"
    by (simp add: powr_diff powr_realpow)
  have a: "(2::real) ^ 52 / 2 ^ k \<le> \<bar>x\<bar>"
    using assms(1) by (simp add: field_simps)
  have b: "\<bar>x\<bar> < (2::real) ^ 53 / 2 ^ k"
    using assms(2) by (simp add: field_simps)
  have "2 powr real_of_int (52 - int k) \<le> \<bar>x\<bar> \<and> \<bar>x\<bar> < 2 powr real_of_int (52 - int k + 1)"
    using a b by (simp add: q q')
  then have "\<lfloor>log 2 \<bar>x\<bar>\<rfloor> = 52 - int k"
    using floor_log_eq_powr_iff [OF x, of 2 "52 - int k"] by simp
  then show ?thesis using assms(3) by (simp add: exponent64_def)
qed

lemma fl64_normal:
  assumes "2 ^ 52 \<le> \<bar>x\<bar> * 2 ^ k" and "\<bar>x\<bar> * 2 ^ k < 2 ^ 53" and "k \<le> 1074"
  shows "fl64 x = of_int (roundTiesToEven (x * 2 ^ k)) / 2 ^ k"
proof -
  have x: "x \<noteq> 0" using assms(1) by auto
  have u: "ulp64 x = 1 / 2 ^ k"
    unfolding ulp64_def exponent64_normal [OF assms] by (simp add: powr_minus_divide powr_realpow)
  have "fl64 x = ulp64 x * of_int (roundTiesToEven (x / ulp64 x))"
    using x by (simp add: fl64_def)
  also have "\<dots> = of_int (roundTiesToEven (x * 2 ^ k)) / 2 ^ k"
    unfolding u by simp
  finally show ?thesis .
qed

lemma fl64_subnormal:
  assumes "\<bar>x\<bar> * 2 ^ 1022 < 1"
  shows "fl64 x = of_int (roundTiesToEven (x * 2 ^ 1074)) / 2 ^ 1074"
proof (cases "x = 0")
  case True
  then show ?thesis using roundTiesToEven_of_int [of 0] by simp
next
  case False
  then have x: "0 < \<bar>x\<bar>" by simp
  have "\<bar>x\<bar> < 1 / 2 ^ 1022"
    using assms by (simp add: field_simps)
  then have "\<bar>x\<bar> < 2 powr of_int (- 1022)"
    by (simp add: powr_minus_divide)
  then have "log 2 \<bar>x\<bar> < of_int (- 1022)" using x by (simp add: log_less_iff del: of_int_minus)
  then have "\<lfloor>log 2 \<bar>x\<bar>\<rfloor> < - 1022" by linarith
  then have "exponent64 x = - 1022" by (simp add: exponent64_def)
  then have u: "ulp64 x = 1 / 2 ^ 1074"
    unfolding ulp64_def by (simp add: powr_minus_divide)
  have "fl64 x = ulp64 x * of_int (roundTiesToEven (x / ulp64 x))"
    using False by (simp add: fl64_def)
  also have "\<dots> = of_int (roundTiesToEven (x * 2 ^ 1074)) / 2 ^ 1074"
    unfolding u by simp
  finally show ?thesis .
qed

text \<open>
  The propagation of the rounding errors along a chain of operations, in the unit of
  the result.
\<close>

lemma fl64_rounds: "rounds (1 / 2 ^ 1022) (fl64 x) x"
  unfolding rounds_def by (rule fl64_error)

lemma rounds_scale:
  assumes "rounds \<epsilon> r t" and "0 < k" and "k * \<epsilon> \<le> \<eta>"
  shows "rounds \<eta> (k * r) (k * t)"
proof -
  have "\<bar>k * r - k * t\<bar> = k * \<bar>r - t\<bar>"
    using assms(2) by (simp add: abs_mult flip: right_diff_distrib)
  also have "\<dots> \<le> k * ((\<bar>t\<bar> + \<epsilon>) / 2 ^ 53)"
    using assms(1,2) unfolding rounds_def by (intro mult_left_mono) simp_all
  also have "\<dots> = (\<bar>k * t\<bar> + k * \<epsilon>) / 2 ^ 53"
    using assms(2) by (simp add: abs_mult field_simps)
  also have "\<dots> \<le> (\<bar>k * t\<bar> + \<eta>) / 2 ^ 53"
    using assms(3) by (simp add: divide_right_mono)
  finally show ?thesis unfolding rounds_def .
qed


lemma powers_of_two: "(2::real) ^ 53 = 9007199254740992" "(2::real) ^ 50 = 1125899906842624"
  "(2::real) ^ 49 = 562949953421312" "(2::real) ^ 10 = 1024"
  by simp_all

lemma bound_edge:
  assumes "rounds \<eta> a h" and "rounds \<eta> B (C - a)" and "0 \<le> h" and "0 \<le> \<eta>"
  shows "\<bar>B\<bar> \<le> (1 + 1 / 2 ^ 50) * (\<bar>C\<bar> + h) + \<eta> / 2 ^ 50"
  using assms unfolding rounds_def powers_of_two by argo

lemma bound_two_roundings:
  assumes "rounds \<eta> n p" and "rounds \<eta> c n" and "0 \<le> \<eta>"
  shows "\<bar>c - p\<bar> \<le> (3 * \<bar>p\<bar> + 3 * \<eta>) / 2 ^ 53"
  using assms unfolding rounds_def powers_of_two by argo

lemma bound_there_and_back:
  assumes "rounds \<eta> re (B + c)" and "rounds \<eta> d (re - B)" and "rounds \<eta> e d"
    and "rounds \<eta> x e" and "0 \<le> \<eta>"
  shows "\<bar>x - c\<bar> \<le> (7 * \<bar>B\<bar> + 7 * \<bar>c\<bar> + 7 * \<eta>) / 2 ^ 53"
proof -
  have 1: "\<bar>re - B - c\<bar> \<le> (\<bar>B\<bar> + \<bar>c\<bar> + \<eta>) / 2 ^ 53"
    using assms(1) unfolding rounds_def powers_of_two by argo
  have 2: "\<bar>d - (re - B)\<bar> \<le> (\<bar>re - B\<bar> + \<eta>) / 2 ^ 53"
    using assms(2) unfolding rounds_def .
  have 3: "\<bar>d - c\<bar> \<le> (3 * \<bar>B\<bar> + 3 * \<bar>c\<bar> + 3 * \<eta>) / 2 ^ 53"
    using 1 2 assms(5) unfolding powers_of_two by argo
  have 4: "\<bar>x - d\<bar> \<le> (3 * \<bar>d\<bar> + 3 * \<eta>) / 2 ^ 53"
    using assms(3,4,5) by (rule bound_two_roundings)
  show ?thesis
    using 3 4 assms(5) unfolding powers_of_two by argo
qed

lemma bound_back_and_there:
  assumes "rounds \<eta> d (a - B)" and "rounds \<eta> e d" and "rounds \<eta> x e"
    and "rounds \<eta> n x" and "rounds \<eta> c n" and "rounds \<eta> re (B + c)" and "0 \<le> \<eta>"
  shows "\<bar>re - a\<bar> \<le> (11 * \<bar>a\<bar> + 11 * \<bar>B\<bar> + 11 * \<eta>) / 2 ^ 53"
proof -
  have 1: "\<bar>x - d\<bar> \<le> (3 * \<bar>d\<bar> + 3 * \<eta>) / 2 ^ 53"
    using assms(2,3,7) by (rule bound_two_roundings)
  have 2: "\<bar>c - x\<bar> \<le> (3 * \<bar>x\<bar> + 3 * \<eta>) / 2 ^ 53"
    using assms(4,5,7) by (rule bound_two_roundings)
  have 3: "\<bar>c - d\<bar> \<le> (7 * \<bar>d\<bar> + 7 * \<eta>) / 2 ^ 53"
    using 1 2 assms(7) unfolding powers_of_two by argo
  have 4: "\<bar>d - (a - B)\<bar> \<le> (\<bar>a\<bar> + \<bar>B\<bar> + \<eta>) / 2 ^ 53"
    using assms(1) unfolding rounds_def powers_of_two by argo
  have 6: "\<bar>c - (a - B)\<bar> \<le> (9 * \<bar>a\<bar> + 9 * \<bar>B\<bar> + 9 * \<eta>) / 2 ^ 53"
    using 3 4 assms(7) unfolding powers_of_two by argo
  have 7: "\<bar>re - (B + c)\<bar> \<le> (\<bar>B + c\<bar> + \<eta>) / 2 ^ 53"
    using assms(6) unfolding rounds_def .
  show ?thesis
    using 6 7 assms(7) unfolding powers_of_two by argo
qed

lemma rounds_minus: "rounds \<eta> r t \<Longrightarrow> rounds \<eta> (- r) (- t)"
  unfolding rounds_def by (simp add: abs_minus_commute)

lemma rounds_mono: "rounds \<epsilon> r t \<Longrightarrow> \<epsilon> \<le> \<eta> \<Longrightarrow> rounds \<eta> r t"
  unfolding rounds_def powers_of_two by argo

lemma ratio_bound:
  assumes "1 / 2 ^ 100 \<le> W" and "N \<le> (2::real) ^ 100" and "0 < N"
  shows "N / W * (1 / 2 ^ 1022) \<le> 1 / 2 ^ 822"
proof -
  have W: "0 < W" using assms(1) by (rule less_le_trans [rotated]) simp
  have "N / W \<le> 2 ^ 100 / (1 / 2 ^ 100)"
    using assms W by (intro frac_le) simp_all
  then have "N / W \<le> 2 ^ 200" by simp
  then have "N / W * (1 / 2 ^ 1022) \<le> 2 ^ 200 * (1 / 2 ^ 1022)"
    by (intro mult_right_mono) simp_all
  then show ?thesis by simp
qed

lemma pixel_bound_arith:
  fixes b c p k n \<eta> X Y :: real
  assumes "b \<le> (1 + 1 / 2 ^ 50) * (k + n / 2) + \<eta> / 2 ^ 50"
    and "Y \<le> (3 * p + 3 * \<eta>) / 2 ^ 53"
    and "X \<le> (7 * b + 7 * c + 7 * \<eta>) / 2 ^ 53"
    and "c \<le> p + Y" and "0 \<le> \<eta>" and "\<eta> \<le> n / 2 ^ 10" and "0 \<le> p" and "0 \<le> k"
  shows "X + Y \<le> (p + (k + n)) / 2 ^ 49"
  using assms unfolding powers_of_two by argo

lemma pixel_round_trip_bound:
  assumes W: "1 / 2 ^ 100 \<le> W" "W \<le> 2 ^ 100" and N: "1 / 2 ^ 100 \<le> N" "N \<le> 2 ^ 100"
    and a: "rounds (1 / 2 ^ 1022) a (W / 2)"
    and B: "rounds (1 / 2 ^ 1022) B (C - a)"
    and n: "rounds (1 / 2 ^ 1022) n (p / N)"
    and c: "rounds (1 / 2 ^ 1022) c (n * W)"
    and re: "rounds (1 / 2 ^ 1022) re (B + c)"
    and d: "rounds (1 / 2 ^ 1022) d (re - B)"
    and e: "rounds (1 / 2 ^ 1022) e (d / W)"
    and x: "rounds (1 / 2 ^ 1022) x (e * N)"
  shows "\<bar>x - p\<bar> \<le> (\<bar>p\<bar> + N * (\<bar>C\<bar> / W + 1)) / 2 ^ 49"
proof -
  define K where "K = N / W"
  define \<eta> :: real where "\<eta> = 1 / 2 ^ 822"
  have Wp: "0 < W" using W(1) by (rule less_le_trans [rotated]) simp
  have Np: "0 < N" using N(1) by (rule less_le_trans [rotated]) simp
  have Kp: "0 < K" unfolding K_def using Wp Np by simp
  have K\<eta>: "K * (1 / 2 ^ 1022) \<le> \<eta>"
    unfolding K_def \<eta>_def using ratio_bound [OF W(1) N(2) Np] .
  have N\<eta>: "N * (1 / 2 ^ 1022) \<le> \<eta>"
  proof -
    have "N * (1 / 2 ^ 1022) \<le> 2 ^ 100 * (1 / 2 ^ 1022)"
      using N(2) by (intro mult_right_mono) simp_all
    then show ?thesis unfolding \<eta>_def by simp
  qed
  have \<epsilon>\<eta>: "1 / 2 ^ 1022 \<le> \<eta>" unfolding \<eta>_def by simp
  have \<eta>0: "0 \<le> \<eta>" unfolding \<eta>_def by simp
  have \<eta>N: "\<eta> \<le> N / 2 ^ 10"
  proof -
    have "\<eta> \<le> 1 / 2 ^ 100 / 2 ^ 10" unfolding \<eta>_def by simp
    also have "\<dots> \<le> N / 2 ^ 10" using N(1) by (intro divide_right_mono) simp_all
    finally show ?thesis .
  qed
  have sa: "rounds \<eta> (K * a) (N / 2)"
    using rounds_scale [OF a Kp K\<eta>] Wp unfolding K_def by simp
  have sB: "rounds \<eta> (K * B) (K * C - K * a)"
    using rounds_scale [OF B Kp K\<eta>] by (simp add: right_diff_distrib)
  have sn: "rounds \<eta> (N * n) p"
    using rounds_scale [OF n Np N\<eta>] Np by simp
  have sc: "rounds \<eta> (K * c) (N * n)"
    using rounds_scale [OF c Kp K\<eta>] Wp unfolding K_def by (simp add: mult.commute)
  have sre: "rounds \<eta> (K * re) (K * B + K * c)"
    using rounds_scale [OF re Kp K\<eta>] by (simp add: distrib_left)
  have sd: "rounds \<eta> (K * d) (K * re - K * B)"
    using rounds_scale [OF d Kp K\<eta>] by (simp add: right_diff_distrib)
  have se: "rounds \<eta> (N * e) (K * d)"
    using rounds_scale [OF e Np N\<eta>] unfolding K_def by simp
  have sx: "rounds \<eta> x (N * e)"
    using rounds_mono [OF x \<epsilon>\<eta>] by (simp add: mult.commute)
  have 1: "\<bar>K * B\<bar> \<le> (1 + 1 / 2 ^ 50) * (\<bar>K * C\<bar> + N / 2) + \<eta> / 2 ^ 50"
    using bound_edge [OF sa sB _ \<eta>0] Np by simp
  have 2: "\<bar>K * c - p\<bar> \<le> (3 * \<bar>p\<bar> + 3 * \<eta>) / 2 ^ 53"
    using sn sc \<eta>0 by (rule bound_two_roundings)
  have 3: "\<bar>x - K * c\<bar> \<le> (7 * \<bar>K * B\<bar> + 7 * \<bar>K * c\<bar> + 7 * \<eta>) / 2 ^ 53"
    using sre sd se sx \<eta>0 by (rule bound_there_and_back)
  have KC: "\<bar>K * C\<bar> = N * (\<bar>C\<bar> / W)"
    unfolding K_def using Wp Np by (simp add: abs_mult)
  have 4: "\<bar>K * c\<bar> \<le> \<bar>p\<bar> + \<bar>K * c - p\<bar>" by simp
  have 5: "\<bar>x - p\<bar> \<le> \<bar>x - K * c\<bar> + \<bar>K * c - p\<bar>" by simp
  have "\<bar>x - K * c\<bar> + \<bar>K * c - p\<bar> \<le> (\<bar>p\<bar> + (\<bar>K * C\<bar> + N)) / 2 ^ 49"
    using 1 2 3 4 \<eta>0 \<eta>N by (rule pixel_bound_arith) simp_all
  then have "\<bar>x - p\<bar> \<le> (\<bar>p\<bar> + (\<bar>K * C\<bar> + N)) / 2 ^ 49"
    using 5 by linarith
  then show ?thesis unfolding KC by (simp add: distrib_left)
qed


lemma plane_bound_arith:
  fixes b q k w \<eta> X :: real
  assumes "b \<le> (1 + 1 / 2 ^ 50) * (k + w / 2) + \<eta> / 2 ^ 50"
    and "X \<le> (11 * q + 11 * b + 11 * \<eta>) / 2 ^ 53"
    and "0 \<le> \<eta>" and "\<eta> \<le> w / 2 ^ 10" and "0 \<le> q" and "0 \<le> k"
  shows "X \<le> (q + k + w) / 2 ^ 49"
  using assms unfolding powers_of_two by argo

lemma plane_round_trip_bound:
  assumes W: "1 / 2 ^ 100 \<le> W" "W \<le> 2 ^ 100" and N: "1 / 2 ^ 100 \<le> N" "N \<le> 2 ^ 100"
    and h: "rounds (1 / 2 ^ 1022) h (W / 2)"
    and B: "rounds (1 / 2 ^ 1022) B (C - h)"
    and d: "rounds (1 / 2 ^ 1022) d (q - B)"
    and e: "rounds (1 / 2 ^ 1022) e (d / W)"
    and x: "rounds (1 / 2 ^ 1022) x (e * N)"
    and n: "rounds (1 / 2 ^ 1022) n (x / N)"
    and c: "rounds (1 / 2 ^ 1022) c (n * W)"
    and re: "rounds (1 / 2 ^ 1022) re (B + c)"
  shows "\<bar>re - q\<bar> \<le> (\<bar>q\<bar> + \<bar>C\<bar> + W) / 2 ^ 49"
proof -
  define K where "K = W / N"
  define \<eta> :: real where "\<eta> = 1 / 2 ^ 822"
  have Wp: "0 < W" using W(1) by (rule less_le_trans [rotated]) simp
  have Np: "0 < N" using N(1) by (rule less_le_trans [rotated]) simp
  have Kp: "0 < K" unfolding K_def using Wp Np by simp
  have K\<eta>: "K * (1 / 2 ^ 1022) \<le> \<eta>"
    unfolding K_def \<eta>_def using ratio_bound [OF N(1) W(2) Wp] .
  have W\<eta>: "W * (1 / 2 ^ 1022) \<le> \<eta>"
  proof -
    have "W * (1 / 2 ^ 1022) \<le> 2 ^ 100 * (1 / 2 ^ 1022)"
      using W(2) by (intro mult_right_mono) simp_all
    then show ?thesis unfolding \<eta>_def by simp
  qed
  have \<epsilon>\<eta>: "1 / 2 ^ 1022 \<le> \<eta>" unfolding \<eta>_def by simp
  have \<eta>0: "0 \<le> \<eta>" unfolding \<eta>_def by simp
  have \<eta>W: "\<eta> \<le> W / 2 ^ 10"
  proof -
    have "\<eta> \<le> 1 / 2 ^ 100 / 2 ^ 10" unfolding \<eta>_def by simp
    also have "\<dots> \<le> W / 2 ^ 10" using W(1) by (intro divide_right_mono) simp_all
    finally show ?thesis .
  qed
  have sh: "rounds \<eta> h (W / 2)" using h \<epsilon>\<eta> by (rule rounds_mono)
  have sB: "rounds \<eta> B (C - h)" using B \<epsilon>\<eta> by (rule rounds_mono)
  have sd: "rounds \<eta> d (q - B)" using d \<epsilon>\<eta> by (rule rounds_mono)
  have se: "rounds \<eta> (W * e) d"
    using rounds_scale [OF e Wp W\<eta>] Wp by simp
  have sx: "rounds \<eta> (K * x) (W * e)"
    using rounds_scale [OF x Kp K\<eta>] Np unfolding K_def by (simp add: mult.commute)
  have sn: "rounds \<eta> (W * n) (K * x)"
    using rounds_scale [OF n Wp W\<eta>] unfolding K_def by simp
  have sc: "rounds \<eta> c (W * n)"
    using rounds_mono [OF c \<epsilon>\<eta>] by (simp add: mult.commute)
  have sre: "rounds \<eta> re (B + c)" using re \<epsilon>\<eta> by (rule rounds_mono)
  have 1: "\<bar>B\<bar> \<le> (1 + 1 / 2 ^ 50) * (\<bar>C\<bar> + W / 2) + \<eta> / 2 ^ 50"
    using bound_edge [OF sh sB _ \<eta>0] Wp by simp
  have 2: "\<bar>re - q\<bar> \<le> (11 * \<bar>q\<bar> + 11 * \<bar>B\<bar> + 11 * \<eta>) / 2 ^ 53"
    using sd se sx sn sc sre \<eta>0 by (rule bound_back_and_there)
  show ?thesis
    using 1 2 \<eta>0 \<eta>W by (rule plane_bound_arith) simp_all
qed

text \<open>
  An operation on finite arguments of bounded magnitude neither overflows nor, on
  spans bounded away from zero, underflows.
\<close>

lemma fl64_mag:
  assumes "\<bar>x\<bar> \<le> 2 ^ k"
  shows "\<bar>fl64 x\<bar> \<le> 2 ^ (k + 1)"
proof -
  have "(1::real) \<le> 2 ^ k" by simp
  moreover have "(1::real) / 2 ^ 1022 \<le> 1" by simp
  moreover have "\<bar>fl64 x - x\<bar> \<le> (\<bar>x\<bar> + 1 / 2 ^ 1022) / 2 ^ 53" by (rule fl64_error)
  ultimately have "\<bar>fl64 x\<bar> \<le> 2 * 2 ^ k"
    using assms unfolding powers_of_two by argo
  then show ?thesis by simp
qed



lemma round64_Fin:
  assumes "\<bar>x\<bar> \<le> 2 ^ k" and "k \<le> 1022"
  shows "round64 (Fin x) = Fin (fl64 x)"
proof -
  have "\<bar>fl64 x\<bar> \<le> 2 ^ (k + 1)" using assms(1) by (rule fl64_mag)
  also have "\<dots> \<le> (2::real) ^ 1023" using assms(2) by (intro power_increasing) simp_all
  also have "\<dots> < (2::real) ^ 1024" by simp
  finally have "\<bar>fl64 x\<bar> < 2 ^ 1024" .
  then show ?thesis by (simp add: abs_less_iff)
qed

lemma dadd_mag:
  assumes "\<bar>a\<bar> \<le> 2 ^ j" and "\<bar>b\<bar> \<le> 2 ^ k" and "j \<le> m" and "k \<le> m" and "m \<le> 1021"
  shows "dadd (Fin a) (Fin b) = Fin (fl64 (a + b))" and "\<bar>fl64 (a + b)\<bar> \<le> 2 ^ (m + 2)"
proof -
  have "(2::real) ^ j \<le> 2 ^ m" "(2::real) ^ k \<le> 2 ^ m"
    using assms(3,4) by (simp_all add: power_increasing)
  then have "\<bar>a + b\<bar> \<le> 2 * 2 ^ m" using assms(1,2) by linarith
  then have s: "\<bar>a + b\<bar> \<le> 2 ^ (m + 1)" by simp
  show "dadd (Fin a) (Fin b) = Fin (fl64 (a + b))"
    unfolding dadd_def using round64_Fin [OF s] assms(5) by simp
  show "\<bar>fl64 (a + b)\<bar> \<le> 2 ^ (m + 2)"
    using fl64_mag [OF s] by simp
qed

lemma dsub_mag:
  assumes "\<bar>a\<bar> \<le> 2 ^ j" and "\<bar>b\<bar> \<le> 2 ^ k" and "j \<le> m" and "k \<le> m" and "m \<le> 1021"
  shows "dsub (Fin a) (Fin b) = Fin (fl64 (a - b))" and "\<bar>fl64 (a - b)\<bar> \<le> 2 ^ (m + 2)"
proof -
  have "(2::real) ^ j \<le> 2 ^ m" "(2::real) ^ k \<le> 2 ^ m"
    using assms(3,4) by (simp_all add: power_increasing)
  then have "\<bar>a - b\<bar> \<le> 2 * 2 ^ m" using assms(1,2) by linarith
  then have s: "\<bar>a - b\<bar> \<le> 2 ^ (m + 1)" by simp
  show "dsub (Fin a) (Fin b) = Fin (fl64 (a - b))"
    unfolding dsub_def nsub_def using round64_Fin [OF s] assms(5) by simp
  show "\<bar>fl64 (a - b)\<bar> \<le> 2 ^ (m + 2)"
    using fl64_mag [OF s] by simp
qed

lemma dmul_mag:
  assumes "\<bar>a\<bar> \<le> 2 ^ j" and "\<bar>b\<bar> \<le> 2 ^ k" and "j + k \<le> 1022"
  shows "dmul (Fin a) (Fin b) = Fin (fl64 (a * b))" and "\<bar>fl64 (a * b)\<bar> \<le> 2 ^ (j + k + 1)"
proof -
  have "\<bar>a\<bar> * \<bar>b\<bar> \<le> 2 ^ j * 2 ^ k"
    using assms(1,2) by (intro mult_mono) simp_all
  then have s: "\<bar>a * b\<bar> \<le> 2 ^ (j + k)" by (simp add: abs_mult power_add)
  show "dmul (Fin a) (Fin b) = Fin (fl64 (a * b))"
    unfolding dmul_def using round64_Fin [OF s assms(3)] by simp
  show "\<bar>fl64 (a * b)\<bar> \<le> 2 ^ (j + k + 1)"
    using fl64_mag [OF s] by simp
qed

lemma ddiv_mag:
  assumes "\<bar>a\<bar> \<le> 2 ^ j" and "1 / 2 ^ k \<le> b" and "j + k \<le> 1022"
  shows "ddiv (Fin a) (Fin b) = Fin (fl64 (a / b))" and "\<bar>fl64 (a / b)\<bar> \<le> 2 ^ (j + k + 1)"
proof -
  have b: "0 < b" using assms(2) by (rule less_le_trans [rotated]) simp
  have "\<bar>a\<bar> / b \<le> 2 ^ j / (1 / 2 ^ k)"
    using assms(1,2) by (intro frac_le) simp_all
  then have s: "\<bar>a / b\<bar> \<le> 2 ^ (j + k)" using b by (simp add: power_add)
  show "ddiv (Fin a) (Fin b) = Fin (fl64 (a / b))"
    unfolding ddiv_def using round64_Fin [OF s assms(3)] b by simp
  show "\<bar>fl64 (a / b)\<bar> \<le> 2 ^ (j + k + 1)"
    using fl64_mag [OF s] by simp
qed



text \<open>
  The two round trips, one axis at a time: the operations of \<open>pixelToComplex64\<close> and
  \<open>complexToPixel64\<close> on one coordinate return finite values, and the coordinate comes
  back within the bound.
\<close>

lemma pixel_round_trip_re:
  assumes C: "\<bar>cr\<bar> \<le> 2 ^ 100" and W: "1 / 2 ^ 100 \<le> vw" "vw \<le> 2 ^ 100"
    and N: "1 / 2 ^ 100 \<le> cw" "cw \<le> 2 ^ 100" and p: "\<bar>px\<bar> \<le> 2 ^ 100"
  shows "\<exists>re x.
           dadd (dsub (Fin cr) (ddiv (Fin vw) (Fin 2))) (dmul (ddiv (Fin px) (Fin cw)) (Fin vw))
             = Fin re \<and>
           dmul (ddiv (dsub (Fin re) (dsub (Fin cr) (ddiv (Fin vw) (Fin 2)))) (Fin vw)) (Fin cw)
             = Fin x \<and>
           \<bar>x - px\<bar> \<le> (\<bar>px\<bar> + cw * (\<bar>cr\<bar> / vw + 1)) / 2 ^ 49"
proof -
  define h where "h = fl64 (vw / 2)"
  define B where "B = fl64 (cr - h)"
  define n where "n = fl64 (px / cw)"
  define c where "c = fl64 (n * vw)"
  define re where "re = fl64 (B + c)"
  define d where "d = fl64 (re - B)"
  define e where "e = fl64 (d / vw)"
  define x where "x = fl64 (e * cw)"
  have Wp: "0 < vw" using W(1) by (rule less_le_trans [rotated]) simp
  have Wm: "\<bar>vw\<bar> \<le> 2 ^ 100" using Wp W(2) by simp
  have Np: "0 < cw" using N(1) by (rule less_le_trans [rotated]) simp
  have Nm: "\<bar>cw\<bar> \<le> 2 ^ 100" using Np N(2) by simp
  have two: "1 / 2 ^ 0 \<le> (2::real)" by simp
  have h: "ddiv (Fin vw) (Fin 2) = Fin h" "\<bar>h\<bar> \<le> 2 ^ 101"
    using ddiv_mag [OF Wm two] unfolding h_def by simp_all
  have B: "dsub (Fin cr) (Fin h) = Fin B" "\<bar>B\<bar> \<le> 2 ^ 103"
    using dsub_mag [OF C h(2), of 101] unfolding B_def by simp_all
  have n: "ddiv (Fin px) (Fin cw) = Fin n" "\<bar>n\<bar> \<le> 2 ^ 201"
    using ddiv_mag [OF p N(1)] unfolding n_def by simp_all
  have c: "dmul (Fin n) (Fin vw) = Fin c" "\<bar>c\<bar> \<le> 2 ^ 302"
    using dmul_mag [OF n(2) Wm] unfolding c_def by simp_all
  have re: "dadd (Fin B) (Fin c) = Fin re" "\<bar>re\<bar> \<le> 2 ^ 304"
    using dadd_mag [OF B(2) c(2), of 302] unfolding re_def by simp_all
  have d: "dsub (Fin re) (Fin B) = Fin d" "\<bar>d\<bar> \<le> 2 ^ 306"
    using dsub_mag [OF re(2) B(2), of 304] unfolding d_def by simp_all
  have e: "ddiv (Fin d) (Fin vw) = Fin e" "\<bar>e\<bar> \<le> 2 ^ 407"
    using ddiv_mag [OF d(2) W(1)] unfolding e_def by simp_all
  have x: "dmul (Fin e) (Fin cw) = Fin x"
    using dmul_mag(1) [OF e(2) Nm] unfolding x_def by simp
  have "\<bar>x - px\<bar> \<le> (\<bar>px\<bar> + cw * (\<bar>cr\<bar> / vw + 1)) / 2 ^ 49"
    using W N
  proof (rule pixel_round_trip_bound)
    show "rounds (1 / 2 ^ 1022) h (vw / 2)" unfolding h_def by (rule fl64_rounds)
    show "rounds (1 / 2 ^ 1022) B (cr - h)" unfolding B_def by (rule fl64_rounds)
    show "rounds (1 / 2 ^ 1022) n (px / cw)" unfolding n_def by (rule fl64_rounds)
    show "rounds (1 / 2 ^ 1022) c (n * vw)" unfolding c_def by (rule fl64_rounds)
    show "rounds (1 / 2 ^ 1022) re (B + c)" unfolding re_def by (rule fl64_rounds)
    show "rounds (1 / 2 ^ 1022) d (re - B)" unfolding d_def by (rule fl64_rounds)
    show "rounds (1 / 2 ^ 1022) e (d / vw)" unfolding e_def by (rule fl64_rounds)
    show "rounds (1 / 2 ^ 1022) x (e * cw)" unfolding x_def by (rule fl64_rounds)
  qed
  then show ?thesis
    using h(1) B(1) n(1) c(1) re(1) d(1) e(1) x by simp
qed


lemma pixel_round_trip_im:
  assumes C: "\<bar>ci\<bar> \<le> 2 ^ 100" and W: "1 / 2 ^ 100 \<le> vh" "vh \<le> 2 ^ 100"
    and N: "1 / 2 ^ 100 \<le> ch" "ch \<le> 2 ^ 100" and p: "\<bar>py\<bar> \<le> 2 ^ 100"
  shows "\<exists>im y.
           dsub (dadd (Fin ci) (ddiv (Fin vh) (Fin 2))) (dmul (ddiv (Fin py) (Fin ch)) (Fin vh))
             = Fin im \<and>
           dmul (ddiv (dsub (dadd (Fin ci) (ddiv (Fin vh) (Fin 2))) (Fin im)) (Fin vh)) (Fin ch)
             = Fin y \<and>
           \<bar>y - py\<bar> \<le> (\<bar>py\<bar> + ch * (\<bar>ci\<bar> / vh + 1)) / 2 ^ 49"
proof -
  define h where "h = fl64 (vh / 2)"
  define B where "B = fl64 (ci + h)"
  define n where "n = fl64 (py / ch)"
  define c where "c = fl64 (n * vh)"
  define im where "im = fl64 (B - c)"
  define d where "d = fl64 (B - im)"
  define e where "e = fl64 (d / vh)"
  define y where "y = fl64 (e * ch)"
  have Wp: "0 < vh" using W(1) by (rule less_le_trans [rotated]) simp
  have Wm: "\<bar>vh\<bar> \<le> 2 ^ 100" using Wp W(2) by simp
  have Np: "0 < ch" using N(1) by (rule less_le_trans [rotated]) simp
  have Nm: "\<bar>ch\<bar> \<le> 2 ^ 100" using Np N(2) by simp
  have two: "1 / 2 ^ 0 \<le> (2::real)" by simp
  have h: "ddiv (Fin vh) (Fin 2) = Fin h" "\<bar>h\<bar> \<le> 2 ^ 101"
    using ddiv_mag [OF Wm two] unfolding h_def by simp_all
  have B: "dadd (Fin ci) (Fin h) = Fin B" "\<bar>B\<bar> \<le> 2 ^ 103"
    using dadd_mag [OF C h(2), of 101] unfolding B_def by simp_all
  have n: "ddiv (Fin py) (Fin ch) = Fin n" "\<bar>n\<bar> \<le> 2 ^ 201"
    using ddiv_mag [OF p N(1)] unfolding n_def by simp_all
  have c: "dmul (Fin n) (Fin vh) = Fin c" "\<bar>c\<bar> \<le> 2 ^ 302"
    using dmul_mag [OF n(2) Wm] unfolding c_def by simp_all
  have im: "dsub (Fin B) (Fin c) = Fin im" "\<bar>im\<bar> \<le> 2 ^ 304"
    using dsub_mag [OF B(2) c(2), of 302] unfolding im_def by simp_all
  have d: "dsub (Fin B) (Fin im) = Fin d" "\<bar>d\<bar> \<le> 2 ^ 306"
    using dsub_mag [OF B(2) im(2), of 304] unfolding d_def by simp_all
  have e: "ddiv (Fin d) (Fin vh) = Fin e" "\<bar>e\<bar> \<le> 2 ^ 407"
    using ddiv_mag [OF d(2) W(1)] unfolding e_def by simp_all
  have y: "dmul (Fin e) (Fin ch) = Fin y"
    using dmul_mag(1) [OF e(2) Nm] unfolding y_def by simp
  have "\<bar>y - py\<bar> \<le> (\<bar>py\<bar> + ch * (\<bar>- ci\<bar> / vh + 1)) / 2 ^ 49"
    using W N
  proof (rule pixel_round_trip_bound)
    show "rounds (1 / 2 ^ 1022) h (vh / 2)" unfolding h_def by (rule fl64_rounds)
    show "rounds (1 / 2 ^ 1022) (- B) (- ci - h)"
      using rounds_minus [OF fl64_rounds [of "ci + h"]] unfolding B_def by simp
    show "rounds (1 / 2 ^ 1022) n (py / ch)" unfolding n_def by (rule fl64_rounds)
    show "rounds (1 / 2 ^ 1022) c (n * vh)" unfolding c_def by (rule fl64_rounds)
    show "rounds (1 / 2 ^ 1022) (- im) (- B + c)"
      using rounds_minus [OF fl64_rounds [of "B - c"]] unfolding im_def by simp
    show "rounds (1 / 2 ^ 1022) d (- im - - B)"
      using fl64_rounds [of "B - im"] unfolding d_def by simp
    show "rounds (1 / 2 ^ 1022) e (d / vh)" unfolding e_def by (rule fl64_rounds)
    show "rounds (1 / 2 ^ 1022) y (e * ch)" unfolding y_def by (rule fl64_rounds)
  qed
  then show ?thesis
    using h(1) B(1) n(1) c(1) im(1) d(1) e(1) y by simp
qed

lemma plane_round_trip_re:
  assumes C: "\<bar>cr\<bar> \<le> 2 ^ 100" and W: "1 / 2 ^ 100 \<le> vw" "vw \<le> 2 ^ 100"
    and N: "1 / 2 ^ 100 \<le> cw" "cw \<le> 2 ^ 100" and q: "\<bar>a\<bar> \<le> 2 ^ 100"
  shows "\<exists>x re.
           dmul (ddiv (dsub (Fin a) (dsub (Fin cr) (ddiv (Fin vw) (Fin 2)))) (Fin vw)) (Fin cw)
             = Fin x \<and>
           dadd (dsub (Fin cr) (ddiv (Fin vw) (Fin 2))) (dmul (ddiv (Fin x) (Fin cw)) (Fin vw))
             = Fin re \<and>
           \<bar>re - a\<bar> \<le> (\<bar>a\<bar> + \<bar>cr\<bar> + vw) / 2 ^ 49"
proof -
  define h where "h = fl64 (vw / 2)"
  define B where "B = fl64 (cr - h)"
  define d where "d = fl64 (a - B)"
  define e where "e = fl64 (d / vw)"
  define x where "x = fl64 (e * cw)"
  define n where "n = fl64 (x / cw)"
  define c where "c = fl64 (n * vw)"
  define re where "re = fl64 (B + c)"
  have Wp: "0 < vw" using W(1) by (rule less_le_trans [rotated]) simp
  have Wm: "\<bar>vw\<bar> \<le> 2 ^ 100" using Wp W(2) by simp
  have Np: "0 < cw" using N(1) by (rule less_le_trans [rotated]) simp
  have Nm: "\<bar>cw\<bar> \<le> 2 ^ 100" using Np N(2) by simp
  have two: "1 / 2 ^ 0 \<le> (2::real)" by simp
  have h: "ddiv (Fin vw) (Fin 2) = Fin h" "\<bar>h\<bar> \<le> 2 ^ 101"
    using ddiv_mag [OF Wm two] unfolding h_def by simp_all
  have B: "dsub (Fin cr) (Fin h) = Fin B" "\<bar>B\<bar> \<le> 2 ^ 103"
    using dsub_mag [OF C h(2), of 101] unfolding B_def by simp_all
  have d: "dsub (Fin a) (Fin B) = Fin d" "\<bar>d\<bar> \<le> 2 ^ 105"
    using dsub_mag [OF q B(2), of 103] unfolding d_def by simp_all
  have e: "ddiv (Fin d) (Fin vw) = Fin e" "\<bar>e\<bar> \<le> 2 ^ 206"
    using ddiv_mag [OF d(2) W(1)] unfolding e_def by simp_all
  have x: "dmul (Fin e) (Fin cw) = Fin x" "\<bar>x\<bar> \<le> 2 ^ 307"
    using dmul_mag [OF e(2) Nm] unfolding x_def by simp_all
  have n: "ddiv (Fin x) (Fin cw) = Fin n" "\<bar>n\<bar> \<le> 2 ^ 408"
    using ddiv_mag [OF x(2) N(1)] unfolding n_def by simp_all
  have c: "dmul (Fin n) (Fin vw) = Fin c" "\<bar>c\<bar> \<le> 2 ^ 509"
    using dmul_mag [OF n(2) Wm] unfolding c_def by simp_all
  have re: "dadd (Fin B) (Fin c) = Fin re"
    using dadd_mag(1) [OF B(2) c(2), of 509] unfolding re_def by simp
  have "\<bar>re - a\<bar> \<le> (\<bar>a\<bar> + \<bar>cr\<bar> + vw) / 2 ^ 49"
    using W N
  proof (rule plane_round_trip_bound)
    show "rounds (1 / 2 ^ 1022) h (vw / 2)" unfolding h_def by (rule fl64_rounds)
    show "rounds (1 / 2 ^ 1022) B (cr - h)" unfolding B_def by (rule fl64_rounds)
    show "rounds (1 / 2 ^ 1022) d (a - B)" unfolding d_def by (rule fl64_rounds)
    show "rounds (1 / 2 ^ 1022) e (d / vw)" unfolding e_def by (rule fl64_rounds)
    show "rounds (1 / 2 ^ 1022) x (e * cw)" unfolding x_def by (rule fl64_rounds)
    show "rounds (1 / 2 ^ 1022) n (x / cw)" unfolding n_def by (rule fl64_rounds)
    show "rounds (1 / 2 ^ 1022) c (n * vw)" unfolding c_def by (rule fl64_rounds)
    show "rounds (1 / 2 ^ 1022) re (B + c)" unfolding re_def by (rule fl64_rounds)
  qed
  then show ?thesis
    using h(1) B(1) d(1) e(1) x(1) n(1) c(1) re by simp
qed

lemma plane_round_trip_im:
  assumes C: "\<bar>ci\<bar> \<le> 2 ^ 100" and W: "1 / 2 ^ 100 \<le> vh" "vh \<le> 2 ^ 100"
    and N: "1 / 2 ^ 100 \<le> ch" "ch \<le> 2 ^ 100" and q: "\<bar>b\<bar> \<le> 2 ^ 100"
  shows "\<exists>y im.
           dmul (ddiv (dsub (dadd (Fin ci) (ddiv (Fin vh) (Fin 2))) (Fin b)) (Fin vh)) (Fin ch)
             = Fin y \<and>
           dsub (dadd (Fin ci) (ddiv (Fin vh) (Fin 2))) (dmul (ddiv (Fin y) (Fin ch)) (Fin vh))
             = Fin im \<and>
           \<bar>im - b\<bar> \<le> (\<bar>b\<bar> + \<bar>ci\<bar> + vh) / 2 ^ 49"
proof -
  define h where "h = fl64 (vh / 2)"
  define B where "B = fl64 (ci + h)"
  define d where "d = fl64 (B - b)"
  define e where "e = fl64 (d / vh)"
  define y where "y = fl64 (e * ch)"
  define n where "n = fl64 (y / ch)"
  define c where "c = fl64 (n * vh)"
  define im where "im = fl64 (B - c)"
  have Wp: "0 < vh" using W(1) by (rule less_le_trans [rotated]) simp
  have Wm: "\<bar>vh\<bar> \<le> 2 ^ 100" using Wp W(2) by simp
  have Np: "0 < ch" using N(1) by (rule less_le_trans [rotated]) simp
  have Nm: "\<bar>ch\<bar> \<le> 2 ^ 100" using Np N(2) by simp
  have two: "1 / 2 ^ 0 \<le> (2::real)" by simp
  have h: "ddiv (Fin vh) (Fin 2) = Fin h" "\<bar>h\<bar> \<le> 2 ^ 101"
    using ddiv_mag [OF Wm two] unfolding h_def by simp_all
  have B: "dadd (Fin ci) (Fin h) = Fin B" "\<bar>B\<bar> \<le> 2 ^ 103"
    using dadd_mag [OF C h(2), of 101] unfolding B_def by simp_all
  have d: "dsub (Fin B) (Fin b) = Fin d" "\<bar>d\<bar> \<le> 2 ^ 105"
    using dsub_mag [OF B(2) q, of 103] unfolding d_def by simp_all
  have e: "ddiv (Fin d) (Fin vh) = Fin e" "\<bar>e\<bar> \<le> 2 ^ 206"
    using ddiv_mag [OF d(2) W(1)] unfolding e_def by simp_all
  have y: "dmul (Fin e) (Fin ch) = Fin y" "\<bar>y\<bar> \<le> 2 ^ 307"
    using dmul_mag [OF e(2) Nm] unfolding y_def by simp_all
  have n: "ddiv (Fin y) (Fin ch) = Fin n" "\<bar>n\<bar> \<le> 2 ^ 408"
    using ddiv_mag [OF y(2) N(1)] unfolding n_def by simp_all
  have c: "dmul (Fin n) (Fin vh) = Fin c" "\<bar>c\<bar> \<le> 2 ^ 509"
    using dmul_mag [OF n(2) Wm] unfolding c_def by simp_all
  have im: "dsub (Fin B) (Fin c) = Fin im"
    using dsub_mag(1) [OF B(2) c(2), of 509] unfolding im_def by simp
  have "\<bar>- im - - b\<bar> \<le> (\<bar>- b\<bar> + \<bar>- ci\<bar> + vh) / 2 ^ 49"
    using W N
  proof (rule plane_round_trip_bound)
    show "rounds (1 / 2 ^ 1022) h (vh / 2)" unfolding h_def by (rule fl64_rounds)
    show "rounds (1 / 2 ^ 1022) (- B) (- ci - h)"
      using rounds_minus [OF fl64_rounds [of "ci + h"]] unfolding B_def by simp
    show "rounds (1 / 2 ^ 1022) d (- b - - B)"
      using fl64_rounds [of "B - b"] unfolding d_def by simp
    show "rounds (1 / 2 ^ 1022) e (d / vh)" unfolding e_def by (rule fl64_rounds)
    show "rounds (1 / 2 ^ 1022) y (e * ch)" unfolding y_def by (rule fl64_rounds)
    show "rounds (1 / 2 ^ 1022) n (y / ch)" unfolding n_def by (rule fl64_rounds)
    show "rounds (1 / 2 ^ 1022) c (n * vh)" unfolding c_def by (rule fl64_rounds)
    show "rounds (1 / 2 ^ 1022) (- im) (- B + c)"
      using rounds_minus [OF fl64_rounds [of "B - c"]] unfolding im_def by simp
  qed
  then have "\<bar>im - b\<bar> \<le> (\<bar>b\<bar> + \<bar>ci\<bar> + vh) / 2 ^ 49"
    by (simp add: abs_minus_commute)
  then show ?thesis
    using h(1) B(1) d(1) e(1) y(1) n(1) c(1) im by simp
qed


text \<open>
  Rounding at a given exponent, for the evaluation of the functions on given doubles.
\<close>

lemma rne_numeral [simp]:
  "roundTiesToEven (numeral n) = numeral n"
  "roundTiesToEven (- numeral n) = - numeral n"
  "roundTiesToEven 0 = 0" "roundTiesToEven 1 = 1"
  using roundTiesToEven_of_int [of "numeral n"] roundTiesToEven_of_int [of "- numeral n"]
    roundTiesToEven_of_int [of 0] roundTiesToEven_of_int [of 1]
  by simp_all

lemmas fl64_deep = fl64_normal [where k = 44] fl64_normal [where k = 47]
  fl64_normal [where k = 53] fl64_normal [where k = 54] fl64_normal [where k = 55]
  fl64_normal [where k = 56] fl64_normal [where k = 57] fl64_normal [where k = 103]
  fl64_normal [where k = 104] fl64_normal [where k = 107] fl64_normal [where k = 108]


lemmas fl64_tiny = fl64_normal [where k = 52] fl64_normal [where k = 53]
  fl64_normal [where k = 62] fl64_normal [where k = 63] fl64_subnormal

lemmas fl64_home = fl64_normal [where k = 43] fl64_normal [where k = 46]
  fl64_normal [where k = 51] fl64_normal [where k = 52] fl64_normal [where k = 54]
  fl64_normal [where k = 56]

lemmas d_ops = dadd_def dsub_def dmul_def ddiv_def nsub_def


section \<open>Properties of the viewport utilities\<close>








text \<open>
  Claim C3, as the code has it. For every viewport with a centre of magnitude at most
  \<open>2^100\<close> and a width and height between \<open>2^-100\<close> and \<open>2^100\<close>, every canvas with a
  width and height between \<open>2^-100\<close> and \<open>2^100\<close> and every coordinate pair \<open>(a, b)\<close> of
  magnitude at most \<open>2^100\<close>, inside the canvas or not, both round trips in binary64
  return finite values. \<open>complexToPixel\<close> after \<open>pixelToComplex\<close> gives the pixel \<open>(a, b)\<close>
  back within \<open>2^-49 (|a| + canvasWidth (|centerRe| / width + 1))\<close> and
  \<open>2^-49 (|b| + canvasHeight (|centerIm| / height + 1))\<close>; \<open>pixelToComplex\<close> after
  \<open>complexToPixel\<close> gives the plane point \<open>(a, b)\<close> back within
  \<open>2^-49 (|a| + |centerRe| + width)\<close> and \<open>2^-49 (|b| + |centerIm| + height)\<close>. The bound on
  the pixels grows with the ratio of the centre to the span, that is with the depth of
  the zoom.
\<close>

theorem round_trip_within_rounding:
  assumes v: "v = \<lparr>centerRe = Fin cr, centerIm = Fin ci, width = Fin vw, height = Fin vh\<rparr>"
    and mv: "moderateViewport v"
    and mw: "moderateSpan (Fin cw)" and mh: "moderateSpan (Fin ch)"
    and ma: "moderate (Fin a)" and mb: "moderate (Fin b)"
  shows "approx (fst (pixelRoundTrip64 v (Fin a) (Fin b) (Fin cw) (Fin ch))) a
           ((\<bar>a\<bar> + cw * (\<bar>cr\<bar> / vw + 1)) / 2 ^ 49) \<and>
         approx (snd (pixelRoundTrip64 v (Fin a) (Fin b) (Fin cw) (Fin ch))) b
           ((\<bar>b\<bar> + ch * (\<bar>ci\<bar> / vh + 1)) / 2 ^ 49) \<and>
         approx (fst (planeRoundTrip64 v (Fin a) (Fin b) (Fin cw) (Fin ch))) a
           ((\<bar>a\<bar> + \<bar>cr\<bar> + vw) / 2 ^ 49) \<and>
         approx (snd (planeRoundTrip64 v (Fin a) (Fin b) (Fin cw) (Fin ch))) b
           ((\<bar>b\<bar> + \<bar>ci\<bar> + vh) / 2 ^ 49)"
proof -
  have C: "\<bar>cr\<bar> \<le> 2 ^ 100" "\<bar>ci\<bar> \<le> 2 ^ 100"
    and W: "1 / 2 ^ 100 \<le> vw" "vw \<le> 2 ^ 100" and H: "1 / 2 ^ 100 \<le> vh" "vh \<le> 2 ^ 100"
    using mv unfolding v moderateViewport_def by simp_all
  have N: "1 / 2 ^ 100 \<le> cw" "cw \<le> 2 ^ 100" using mw by simp_all
  have M: "1 / 2 ^ 100 \<le> ch" "ch \<le> 2 ^ 100" using mh by simp_all
  have p: "\<bar>a\<bar> \<le> 2 ^ 100" "\<bar>b\<bar> \<le> 2 ^ 100" using ma mb by simp_all
  obtain re x where 1:
    "dadd (dsub (Fin cr) (ddiv (Fin vw) (Fin 2))) (dmul (ddiv (Fin a) (Fin cw)) (Fin vw)) = Fin re"
    "dmul (ddiv (dsub (Fin re) (dsub (Fin cr) (ddiv (Fin vw) (Fin 2)))) (Fin vw)) (Fin cw) = Fin x"
    "\<bar>x - a\<bar> \<le> (\<bar>a\<bar> + cw * (\<bar>cr\<bar> / vw + 1)) / 2 ^ 49"
    using pixel_round_trip_re [OF C(1) W N p(1)] by blast
  obtain im y where 2:
    "dsub (dadd (Fin ci) (ddiv (Fin vh) (Fin 2))) (dmul (ddiv (Fin b) (Fin ch)) (Fin vh)) = Fin im"
    "dmul (ddiv (dsub (dadd (Fin ci) (ddiv (Fin vh) (Fin 2))) (Fin im)) (Fin vh)) (Fin ch) = Fin y"
    "\<bar>y - b\<bar> \<le> (\<bar>b\<bar> + ch * (\<bar>ci\<bar> / vh + 1)) / 2 ^ 49"
    using pixel_round_trip_im [OF C(2) H M p(2)] by blast
  obtain x' re' where 3:
    "dmul (ddiv (dsub (Fin a) (dsub (Fin cr) (ddiv (Fin vw) (Fin 2)))) (Fin vw)) (Fin cw) = Fin x'"
    "dadd (dsub (Fin cr) (ddiv (Fin vw) (Fin 2))) (dmul (ddiv (Fin x') (Fin cw)) (Fin vw)) = Fin re'"
    "\<bar>re' - a\<bar> \<le> (\<bar>a\<bar> + \<bar>cr\<bar> + vw) / 2 ^ 49"
    using plane_round_trip_re [OF C(1) W N p(1)] by blast
  obtain y' im' where 4:
    "dmul (ddiv (dsub (dadd (Fin ci) (ddiv (Fin vh) (Fin 2))) (Fin b)) (Fin vh)) (Fin ch) = Fin y'"
    "dsub (dadd (Fin ci) (ddiv (Fin vh) (Fin 2))) (dmul (ddiv (Fin y') (Fin ch)) (Fin vh)) = Fin im'"
    "\<bar>im' - b\<bar> \<le> (\<bar>b\<bar> + \<bar>ci\<bar> + vh) / 2 ^ 49"
    using plane_round_trip_im [OF C(2) H M p(2)] by blast
  have a: "pixelRoundTrip64 v (Fin a) (Fin b) (Fin cw) (Fin ch) = (Fin x, Fin y)"
    unfolding pixelRoundTrip64_def pixelToComplex64_def complexToPixel64_def v
    using 1(1,2) 2(1,2) by (simp add: Let_def)
  have b: "planeRoundTrip64 v (Fin a) (Fin b) (Fin cw) (Fin ch) = (Fin re', Fin im')"
    unfolding planeRoundTrip64_def pixelToComplex64_def complexToPixel64_def v
    using 3(1,2) 4(1,2) by (simp add: Let_def)
  show ?thesis
    unfolding a b using 1(3) 2(3) 3(3) 4(3) by (simp add: approx_def)
qed

theorem round_trip_within_rounding_witness:
  "pixelRoundTrip64
     \<lparr>centerRe = Fin (- (1 / 2)), centerIm = Fin 0, width = Fin 4, height = Fin 2\<rparr>
     (Fin (- 80)) (Fin 900) (Fin 1024) (Fin 512) = (Fin (- 80), Fin 900) \<and>
   approx
     (fst (pixelRoundTrip64
        \<lparr>centerRe = Fin (- (1 / 2)), centerIm = Fin 0, width = Fin 4, height = Fin 2\<rparr>
        (Fin (- 80)) (Fin 900) (Fin 1024) (Fin 512)))
     (- 80) ((80 + 1024 * (1 / 2 / 4 + 1)) / 2 ^ 49) \<and>
   approx
     (snd (pixelRoundTrip64
        \<lparr>centerRe = Fin (- (1 / 2)), centerIm = Fin 0, width = Fin 4, height = Fin 2\<rparr>
        (Fin (- 80)) (Fin 900) (Fin 1024) (Fin 512)))
     900 ((900 + 512 * (0 / 2 + 1)) / 2 ^ 49) \<and>
   approx
     (fst (planeRoundTrip64
        \<lparr>centerRe = Fin (- (1 / 2)), centerIm = Fin 0, width = Fin 4, height = Fin 2\<rparr>
        (Fin (- (45 / 16))) (Fin (- (161 / 64))) (Fin 1024) (Fin 512)))
     (- (45 / 16)) ((45 / 16 + 1 / 2 + 4) / 2 ^ 49) \<and>
   approx
     (snd (planeRoundTrip64
        \<lparr>centerRe = Fin (- (1 / 2)), centerIm = Fin 0, width = Fin 4, height = Fin 2\<rparr>
        (Fin (- (45 / 16))) (Fin (- (161 / 64))) (Fin 1024) (Fin 512)))
     (- (161 / 64)) ((161 / 64 + 0 + 2) / 2 ^ 49)"
proof -
  have e: "pixelRoundTrip64
     \<lparr>centerRe = Fin (- (1 / 2)), centerIm = Fin 0, width = Fin 4, height = Fin 2\<rparr>
     (Fin (- 80)) (Fin 900) (Fin 1024) (Fin 512) = (Fin (- 80), Fin 900)"
    by (simp add: pixelRoundTrip64_def pixelToComplex64_def complexToPixel64_def Let_def d_ops
        fl64_home)
  have m: "moderateViewport
     \<lparr>centerRe = Fin (- (1 / 2)), centerIm = Fin 0, width = Fin 4, height = Fin 2\<rparr>"
    by (simp add: moderateViewport_def)
  show ?thesis
    using e
      round_trip_within_rounding [OF refl m, of 1024 512 "- 80" 900]
      round_trip_within_rounding [OF refl m, of 1024 512 "- (45 / 16)" "- (161 / 64)"]
    by simp
qed

text \<open>
  Claim C3 as stated fails at a deep zoom. For the viewport of width \<open>2^-50\<close> and height
  \<open>2^-51\<close> centred at \<open>(-0.75, 0.125)\<close> on a canvas of \<open>1024\<close> by \<open>512\<close> pixels, the pixel
  \<open>(401, 17)\<close> goes to the plane point \<open>(-0.75 - 2^-53, 0.125 + 7 \<sqdot> 2^-55)\<close>: the sum with
  the left edge \<open>-0.75 - 2^-51\<close> and with the top edge \<open>0.125 + 2^-52\<close> is rounded to a
  multiple of \<open>2^-53\<close> and of \<open>2^-55\<close>. The way back gives the pixel \<open>(384, 32)\<close>, seventeen
  pixels to the left and fifteen pixels below. For a viewport of width and height
  \<open>2^-1070\<close> centred at the origin on a canvas of \<open>1024\<close> by \<open>1024\<close> pixels, the offset of
  the pixel \<open>(1, 1)\<close> from the edge underflows to zero and the pixel \<open>(0, 0)\<close> comes back.
\<close>

theorem round_trip_deep_zoom_counterexample:
  "pixelToComplex64
     \<lparr>centerRe = Fin (- (3 / 4)), centerIm = Fin (1 / 8),
      width = Fin (1 / 2 ^ 50), height = Fin (1 / 2 ^ 51)\<rparr>
     (Fin 401) (Fin 17) (Fin 1024) (Fin 512)
   = (Fin (- (3 / 4) - 1 / 2 ^ 53), Fin (1 / 8 + 7 / 2 ^ 55)) \<and>
   pixelRoundTrip64
     \<lparr>centerRe = Fin (- (3 / 4)), centerIm = Fin (1 / 8),
      width = Fin (1 / 2 ^ 50), height = Fin (1 / 2 ^ 51)\<rparr>
     (Fin 401) (Fin 17) (Fin 1024) (Fin 512)
   = (Fin 384, Fin 32) \<and>
   \<not> approx (Fin 384) 401 16 \<and> \<not> approx (Fin 32) 17 14 \<and>
   pixelRoundTrip64
     \<lparr>centerRe = Fin 0, centerIm = Fin 0,
      width = Fin (1 / 2 ^ 1070), height = Fin (1 / 2 ^ 1070)\<rparr>
     (Fin 1) (Fin 1) (Fin 1024) (Fin 1024)
   = (Fin 0, Fin 0)"
proof -
  have a: "pixelToComplex64
     \<lparr>centerRe = Fin (- (3 / 4)), centerIm = Fin (1 / 8),
      width = Fin (1 / 2 ^ 50), height = Fin (1 / 2 ^ 51)\<rparr>
     (Fin 401) (Fin 17) (Fin 1024) (Fin 512)
   = (Fin (- (3 / 4) - 1 / 2 ^ 53), Fin (1 / 8 + 7 / 2 ^ 55))"
    by (simp add: pixelToComplex64_def Let_def d_ops fl64_deep roundTiesToEven_def)
  have b: "pixelRoundTrip64
     \<lparr>centerRe = Fin (- (3 / 4)), centerIm = Fin (1 / 8),
      width = Fin (1 / 2 ^ 50), height = Fin (1 / 2 ^ 51)\<rparr>
     (Fin 401) (Fin 17) (Fin 1024) (Fin 512)
   = (Fin 384, Fin 32)"
    by (simp add: pixelRoundTrip64_def pixelToComplex64_def complexToPixel64_def Let_def d_ops
        fl64_deep roundTiesToEven_def)
  have c: "\<not> approx (Fin 384) 401 16" "\<not> approx (Fin 32) 17 14"
    by (simp_all add: approx_def)
  have d: "pixelRoundTrip64
     \<lparr>centerRe = Fin 0, centerIm = Fin 0,
      width = Fin (1 / 2 ^ 1070), height = Fin (1 / 2 ^ 1070)\<rparr>
     (Fin 1) (Fin 1) (Fin 1024) (Fin 1024)
   = (Fin 0, Fin 0)"
    by (simp add: pixelRoundTrip64_def pixelToComplex64_def complexToPixel64_def Let_def d_ops
        fl64_tiny roundTiesToEven_def)
  show ?thesis by (intro conjI a b c d)
qed















text \<open>
  Claim C8, as the code has it. The home viewport for the aspect ratio \<open>16/9\<close> is centred
  at \<open>(-0.5, 0)\<close> with width \<open>3 \<sqdot> (16/9) \<sqdot> 1.05 = 5.6\<close> and height \<open>5.6 / (16/9) = 3.15\<close>.
\<close>

theorem resetViewport_16_9:
  "resetViewport (ndiv (Fin 16) (Fin 9)) =
     \<lparr>centerRe = Fin (- (1 / 2)), centerIm = Fin 0, width = Fin (28 / 5), height = Fin (63 / 20)\<rparr>"
  by (simp add: resetViewport_def createViewport_def nmax_def Let_def)

text \<open>
  Claim C8 as stated fails: the width is not within a tenth of \<open>5.89\<close> and the height is
  not within a tenth of \<open>3.31\<close>.
\<close>

theorem resetViewport_16_9_counterexample:
  "\<not> approx (width (resetViewport (ndiv (Fin 16) (Fin 9)))) (589 / 100) (1 / 10) \<and>
   \<not> approx (height (resetViewport (ndiv (Fin 16) (Fin 9)))) (331 / 100) (1 / 10)"
  by (simp add: resetViewport_def createViewport_def nmax_def Let_def approx_def)


section \<open>Properties of the escape-time kernel\<close>

text \<open>
  The loops are unfolded one test at a time, along the orbit: a test that fails moves to
  the next value of the orbit, a test that succeeds returns, and the loop ends at the
  budget.
\<close>

declare escapeLoop.simps [simp del]
declare smoothLoop.simps [simp del]

lemma escapeLoop_step:
  "int k < N \<Longrightarrow> \<not> exceeds cRe cIm k \<Longrightarrow>
   escapeLoop cRe cIm N (fst (orbit cRe cIm k)) (snd (orbit cRe cIm k)) (int k)
     = escapeLoop cRe cIm N (fst (orbit cRe cIm (Suc k))) (snd (orbit cRe cIm (Suc k))) (int (Suc k))"
  by (subst escapeLoop.simps) (simp add: exceeds_def magnitudeSq_def Let_def add.commute)

lemma escapeLoop_stop:
  "int k < N \<Longrightarrow> exceeds cRe cIm k \<Longrightarrow>
   escapeLoop cRe cIm N (fst (orbit cRe cIm k)) (snd (orbit cRe cIm k)) (int k) = int k"
  by (subst escapeLoop.simps) (simp add: exceeds_def magnitudeSq_def Let_def)

lemma escapeLoop_done:
  "\<not> i < N \<Longrightarrow> escapeLoop cRe cIm N zRe zIm i = N"
  by (subst escapeLoop.simps) simp

lemma smoothLoop_step:
  "int k < N \<Longrightarrow> \<not> exceeds cRe cIm k \<Longrightarrow>
   smoothLoop cRe cIm N (fst (orbit cRe cIm k)) (snd (orbit cRe cIm k)) (int k)
     = smoothLoop cRe cIm N (fst (orbit cRe cIm (Suc k))) (snd (orbit cRe cIm (Suc k))) (int (Suc k))"
  by (subst smoothLoop.simps) (simp add: exceeds_def magnitudeSq_def Let_def add.commute)

lemma smoothLoop_stop:
  "int k < N \<Longrightarrow> exceeds cRe cIm k \<Longrightarrow>
   smoothLoop cRe cIm N (fst (orbit cRe cIm k)) (snd (orbit cRe cIm k)) (int k)
     = nmin (nsub (nadd (Fin (of_int (int k))) (Fin 1))
                  (ndiv logBailout (nlog (nsqrt (magnitudeSq (orbit cRe cIm k))))))
            (Fin (of_int N))"
  by (subst smoothLoop.simps) (simp add: exceeds_def magnitudeSq_def Let_def)

lemma smoothLoop_done:
  "\<not> i < N \<Longrightarrow> smoothLoop cRe cIm N zRe zIm i = Fin (of_int N)"
  by (subst smoothLoop.simps) simp

lemma escapeLoop_interior:
  "(\<And>j. k \<le> j \<Longrightarrow> int j < N \<Longrightarrow> \<not> exceeds cRe cIm j) \<Longrightarrow>
   escapeLoop cRe cIm N (fst (orbit cRe cIm k)) (snd (orbit cRe cIm k)) (int k) = N"
proof (induction "nat (N - int k)" arbitrary: k)
  case 0
  then have "\<not> int k < N" by simp
  then show ?case by (rule escapeLoop_done)
next
  case (Suc d)
  then have lt: "int k < N" by linarith
  have ne: "\<not> exceeds cRe cIm k" using Suc.prems lt by simp
  have "escapeLoop cRe cIm N (fst (orbit cRe cIm (Suc k))) (snd (orbit cRe cIm (Suc k))) (int (Suc k)) = N"
  proof (rule Suc.hyps(1))
    show "d = nat (N - int (Suc k))" using Suc.hyps(2) by simp
  next
    fix j assume "Suc k \<le> j" "int j < N"
    then show "\<not> exceeds cRe cIm j" using Suc.prems by simp
  qed
  then show ?case unfolding escapeLoop_step [OF lt ne] .
qed

lemma smoothLoop_interior:
  "(\<And>j. k \<le> j \<Longrightarrow> int j < N \<Longrightarrow> \<not> exceeds cRe cIm j) \<Longrightarrow>
   smoothLoop cRe cIm N (fst (orbit cRe cIm k)) (snd (orbit cRe cIm k)) (int k) = Fin (of_int N)"
proof (induction "nat (N - int k)" arbitrary: k)
  case 0
  then have "\<not> int k < N" by simp
  then show ?case by (rule smoothLoop_done)
next
  case (Suc d)
  then have lt: "int k < N" by linarith
  have ne: "\<not> exceeds cRe cIm k" using Suc.prems lt by simp
  have "smoothLoop cRe cIm N (fst (orbit cRe cIm (Suc k))) (snd (orbit cRe cIm (Suc k))) (int (Suc k)) = Fin (of_int N)"
  proof (rule Suc.hyps(1))
    show "d = nat (N - int (Suc k))" using Suc.hyps(2) by simp
  next
    fix j assume "Suc k \<le> j" "int j < N"
    then show "\<not> exceeds cRe cIm j" using Suc.prems by simp
  qed
  then show ?case unfolding smoothLoop_step [OF lt ne] .
qed

lemma escapeLoop_first:
  "k \<le> i \<Longrightarrow> int i < N \<Longrightarrow> exceeds cRe cIm i \<Longrightarrow>
   (\<And>j. k \<le> j \<Longrightarrow> j < i \<Longrightarrow> \<not> exceeds cRe cIm j) \<Longrightarrow>
   escapeLoop cRe cIm N (fst (orbit cRe cIm k)) (snd (orbit cRe cIm k)) (int k) = int i"
proof (induction "i - k" arbitrary: k)
  case 0
  then have "k = i" by simp
  then show ?case using "0.prems" by (simp add: escapeLoop_stop)
next
  case (Suc d)
  then have lt: "k < i" by linarith
  then have ltN: "int k < N" using Suc.prems by linarith
  have ne: "\<not> exceeds cRe cIm k" using Suc.prems lt by simp
  have "escapeLoop cRe cIm N (fst (orbit cRe cIm (Suc k))) (snd (orbit cRe cIm (Suc k))) (int (Suc k)) = int i"
  proof (rule Suc.hyps(1))
    show "d = i - Suc k" using Suc.hyps(2) by simp
    show "Suc k \<le> i" using lt by simp
    show "int i < N" by (rule Suc.prems(2))
    show "exceeds cRe cIm i" by (rule Suc.prems(3))
  next
    fix j assume "Suc k \<le> j" "j < i"
    then show "\<not> exceeds cRe cIm j" using Suc.prems(4) by simp
  qed
  then show ?case unfolding escapeLoop_step [OF ltN ne] .
qed

lemma smoothLoop_first:
  "k \<le> i \<Longrightarrow> int i < N \<Longrightarrow> exceeds cRe cIm i \<Longrightarrow>
   (\<And>j. k \<le> j \<Longrightarrow> j < i \<Longrightarrow> \<not> exceeds cRe cIm j) \<Longrightarrow>
   smoothLoop cRe cIm N (fst (orbit cRe cIm k)) (snd (orbit cRe cIm k)) (int k)
     = nmin (nsub (nadd (Fin (of_int (int i))) (Fin 1))
                  (ndiv logBailout (nlog (nsqrt (magnitudeSq (orbit cRe cIm i))))))
            (Fin (of_int N))"
proof (induction "i - k" arbitrary: k)
  case 0
  then have "k = i" by simp
  then show ?case using "0.prems" by (simp add: smoothLoop_stop)
next
  case (Suc d)
  then have lt: "k < i" by linarith
  then have ltN: "int k < N" using Suc.prems by linarith
  have ne: "\<not> exceeds cRe cIm k" using Suc.prems lt by simp
  have "smoothLoop cRe cIm N (fst (orbit cRe cIm (Suc k))) (snd (orbit cRe cIm (Suc k))) (int (Suc k))
     = nmin (nsub (nadd (Fin (of_int (int i))) (Fin 1))
                  (ndiv logBailout (nlog (nsqrt (magnitudeSq (orbit cRe cIm i))))))
            (Fin (of_int N))"
  proof (rule Suc.hyps(1))
    show "d = i - Suc k" using Suc.hyps(2) by simp
    show "Suc k \<le> i" using lt by simp
    show "int i < N" by (rule Suc.prems(2))
    show "exceeds cRe cIm i" by (rule Suc.prems(3))
  next
    fix j assume "Suc k \<le> j" "j < i"
    then show "\<not> exceeds cRe cIm j" using Suc.prems(4) by simp
  qed
  then show ?case unfolding smoothLoop_step [OF ltN ne] .
qed

lemma orbit_finite: "\<exists>a b. orbit (Fin cr) (Fin ci) n = (Fin a, Fin b)"
  by (induction n) (auto simp: nsub_def Let_def)

lemma magnitudeSq_finite: "\<exists>m. magnitudeSq (orbit (Fin cr) (Fin ci) n) = Fin m \<and> 0 \<le> m"
  using orbit_finite [of cr ci n] by (auto simp: magnitudeSq_def)

lemma smooth_value:
  assumes "4 < m"
  shows "nmin (nsub (nadd (Fin (of_int (int i))) (Fin 1)) (ndiv logBailout (nlog (nsqrt (Fin m))))) (Fin (of_int N))
     = (if real_of_int N < real i + 1 - ln 4 / ln (sqrt m) then Fin (of_int N) else Fin (real i + 1 - ln 4 / ln (sqrt m)))"
proof -
  have "2 < sqrt m" using assms by (metis real_sqrt_four real_sqrt_less_iff)
  then have "0 < ln (sqrt m)" using ln_gt_zero [of "sqrt m"] by linarith
  then show ?thesis using assms \<open>2 < sqrt m\<close>
    by (simp add: logBailout_def bailout_def nsub_def nmin_def)
qed

lemma orbit_one: "orbit cRe cIm (Suc 0) = (nadd (Fin 0) cRe, nadd (Fin 0) cIm)"
  by (simp add: nsub_def Let_def)

lemma orbit_origin: "orbit (Fin 0) (Fin 0) n = (Fin 0, Fin 0)"
  by (induction n) (simp_all add: nsub_def Let_def)


text \<open>
  Claim C9. For every point whose orbit never passes the bailout test within the budget,
  \<open>escapeIterations\<close> and \<open>smoothEscape\<close> both return \<open>maxIterations\<close>; for the budget
  zero both return zero at once, whatever the point (finite or not).
\<close>

theorem interior_returns_maxIterations:
  "((\<forall>j. int j < N \<longrightarrow> \<not> exceeds cRe cIm j) \<longrightarrow>
      escapeIterations cRe cIm N = N \<and> smoothEscape cRe cIm N = Fin (of_int N)) \<and>
   escapeIterations cRe cIm 0 = 0 \<and> smoothEscape cRe cIm 0 = Fin 0"
  using escapeLoop_interior [of 0 N cRe cIm] smoothLoop_interior [of 0 N cRe cIm]
    escapeLoop_done [of 0 0 cRe cIm "Fin 0" "Fin 0"] smoothLoop_done [of 0 0 cRe cIm "Fin 0" "Fin 0"]
  by (simp add: escapeIterations_def smoothEscape_def)

theorem interior_returns_maxIterations_witness:
  "escapeIterations (Fin 0) (Fin 0) 100 = 100 \<and> smoothEscape (Fin 0) (Fin 0) 100 = Fin 100"
  using interior_returns_maxIterations [of 100 "Fin 0" "Fin 0"]
  by (simp add: exceeds_def magnitudeSq_def bailoutSq_def bailout_def orbit_origin)


text \<open>
  Claim C2. The code at the point \<open>(2.1, 0)\<close> with the budget \<open>100\<close>: the bailout test
  first succeeds at the iteration \<open>1\<close>, where the orbit has the magnitude \<open>2.1\<close>, so
  \<open>escapeIterations\<close> returns \<open>1\<close>; \<open>smoothEscape\<close> returns \<open>2 - ln 4 / ln 2.1\<close>, the
  logarithm of the constant \<open>4\<close> of the bailout test over the logarithm of the magnitude.
  This value is below one half, while the value \<open>2 - ln 2 / ln 2.1\<close> of the formula with
  the bailout radius \<open>2\<close> lies between \<open>1\<close> and \<open>2\<close>, more than one half above it, and so
  does the value \<open>2 - log2 (log2 2.1)\<close> of the formula that the fragment shader of the
  repository computes and that \<^verbatim>\<open>docs/ALGORITHM.md\<close> gives for both.
\<close>

theorem smoothEscape_at_failing_input:
  "escapeIterations (Fin (21/10)) (Fin 0) 100 = 1 \<and>
   magnitudeSq (orbit (Fin (21/10)) (Fin 0) 1) = Fin (441/100) \<and>
   smoothEscape (Fin (21/10)) (Fin 0) 100 = Fin (2 - ln 4 / ln (21/10)) \<and>
   2 - ln 4 / ln (21/10) < (1/2 :: real) \<and>
   (1 :: real) < 2 - ln 2 / ln (21/10) \<and>
   2 - ln 2 / ln (21/10) < (2 :: real) \<and>
   (1/2 :: real) < (2 - ln 2 / ln (21/10)) - (2 - ln 4 / ln (21/10)) \<and>
   (1 :: real) < 2 - log 2 (log 2 (21/10)) \<and>
   2 - log 2 (log 2 (21/10)) < (2 :: real)"
proof -
  have o1: "orbit (Fin (21/10)) (Fin 0) 1 = (Fin (21/10), Fin 0)"
    using orbit_one [of "Fin (21/10)" "Fin 0"] by simp
  have mg: "magnitudeSq (orbit (Fin (21/10)) (Fin 0) 1) = Fin (441/100)"
    unfolding o1 by (simp add: magnitudeSq_def)
  have x1: "exceeds (Fin (21/10)) (Fin 0) 1"
    unfolding exceeds_def mg by (simp add: bailoutSq_def bailout_def)
  have x0: "\<not> exceeds (Fin (21/10)) (Fin 0) 0"
    by (simp add: exceeds_def magnitudeSq_def bailoutSq_def bailout_def)
  have e: "escapeIterations (Fin (21/10)) (Fin 0) 100 = 1"
    unfolding escapeIterations_def
    using escapeLoop_first [of 0 1 100 "Fin (21/10)" "Fin 0"] x1 x0 by simp
  have sq: "sqrt (441/100) = 21/10"
    using real_sqrt_abs [of "21/10"] by (simp add: power2_eq_square)
  have s1: "smoothEscape (Fin (21/10)) (Fin 0) 100
      = nmin (nsub (nadd (Fin (of_int (int 1))) (Fin 1))
                  (ndiv logBailout (nlog (nsqrt (Fin (441/100)))))) (Fin (of_int 100))"
    unfolding smoothEscape_def
    using smoothLoop_first [of 0 1 100 "Fin (21/10)" "Fin 0"] x1 x0 mg by simp
  have p: "0 < ln (21/10 :: real)" using ln_gt_zero [of "21/10 :: real"] by simp
  have l4: "ln (4::real) = 2 * ln 2" using ln_realpow [of 2 2] by simp
  have l2: "0 < ln (2::real)" using ln_gt_zero [of "2::real"] by simp
  have "3 * ln (21/10 :: real) = ln ((21/10) ^ 3)" using ln_realpow [of "21/10" 3] by simp
  also have "\<dots> < ln (16 :: real)" using ln_less_cancel_iff [of "(21/10) ^ 3 :: real" 16] by (simp add: power3_eq_cube)
  also have "\<dots> = 2 * ln 4" using ln_realpow [of 4 2] by simp
  finally have h: "3 * ln (21/10 :: real) < 2 * ln 4" .
  then have "3 / 2 < ln 4 / ln (21/10 :: real)"
    using pos_less_divide_eq [OF p, of "3/2" "ln 4"] by simp
  then have lt: "2 - ln 4 / ln (21/10) < (1/2 :: real)" by linarith
  have "ln (21/10 :: real) < ln 4" using ln_less_cancel_iff [of "21/10 :: real" 4] by simp
  then have "ln (21/10 :: real) < 2 * ln 2" using l4 by simp
  then have hf: "1 / 2 < ln 2 / ln (21/10 :: real)"
    using pos_less_divide_eq [OF p, of "1/2" "ln 2"] by simp
  have "ln (2 :: real) < ln (21/10)" using ln_less_cancel_iff [of "2 :: real" "21/10"] by simp
  then have "ln 2 / ln (21/10 :: real) < 1"
    using pos_divide_less_eq [OF p, of "ln 2" 1] by simp
  then have up: "(1 :: real) < 2 - ln 2 / ln (21/10)" by linarith
  have "0 < ln 2 / ln (21/10 :: real)" using l2 p by (rule divide_pos_pos)
  then have dn: "2 - ln 2 / ln (21/10) < (2 :: real)" by linarith
  have "(2 - ln 2 / ln (21/10)) - (2 - ln 4 / ln (21/10)) = ln 2 / ln (21/10 :: real)"
    using l4 by (simp add: field_simps)
  then have df: "(1/2 :: real) < (2 - ln 2 / ln (21/10)) - (2 - ln 4 / ln (21/10))"
    using hf by simp
  have s: "smoothEscape (Fin (21/10)) (Fin 0) 100 = Fin (2 - ln 4 / ln (21/10))"
    unfolding s1 using smooth_value [of "441/100" 1 100] lt by (simp add: sq)
  have g1: "1 < log 2 (21/10 :: real)"
    using log_less_cancel_iff [of 2 2 "21/10 :: real"] by simp
  have "log 2 (21/10 :: real) < log 2 4"
    using log_less_cancel_iff [of 2 "21/10 :: real" 4] by simp
  moreover have "log 2 (4 :: real) = 2"
    using log_pow_cancel [of 2 2] by simp
  ultimately have g2: "log 2 (21/10 :: real) < 2" by simp
  have "log 2 1 < log 2 (log 2 (21/10 :: real))"
    using g1 log_less_cancel_iff [of 2 1 "log 2 (21/10 :: real)"] by simp
  then have g3: "0 < log 2 (log 2 (21/10 :: real))" by simp
  have "log 2 (log 2 (21/10 :: real)) < log 2 2"
    using g1 g2 log_less_cancel_iff [of 2 "log 2 (21/10 :: real)" 2] by simp
  then have g4: "log 2 (log 2 (21/10 :: real)) < 1" by simp
  show ?thesis using e mg s lt up dn df g3 g4 by simp
qed



section \<open>Properties of the render controller\<close>


lemma rendererRender_simps [simp]:
  "frames (rendererRender v st s) = frames s"
  "timers (rendererRender v st s) = timers s"
  "nextFrame (rendererRender v st s) = nextFrame s"
  "nextTimer (rendererRender v st s) = nextTimer s"
  "renderRequestId (rendererRender v st s) = renderRequestId s"
  "debounceTimeoutId (rendererRender v st s) = debounceTimeoutId s"
  "animationFrameId (rendererRender v st s) = animationFrameId s"
  "holdZoomFrameId (rendererRender v st s) = holdZoomFrameId s"
  "holdLastViewport (rendererRender v st s) = holdLastViewport s"
  "lastViewport (rendererRender v st s) = lastViewport s"
  "lastSettings (rendererRender v st s) = lastSettings s"
  "effects (rendererRender v st s) = effects s @ [RendererRender v st]"
  by (simp_all add: rendererRender_def)

lemma rendererUpdatePalette_simps [simp]:
  "frames (rendererUpdatePalette p s) = frames s"
  "timers (rendererUpdatePalette p s) = timers s"
  "nextFrame (rendererUpdatePalette p s) = nextFrame s"
  "nextTimer (rendererUpdatePalette p s) = nextTimer s"
  "renderRequestId (rendererUpdatePalette p s) = renderRequestId s"
  "debounceTimeoutId (rendererUpdatePalette p s) = debounceTimeoutId s"
  "animationFrameId (rendererUpdatePalette p s) = animationFrameId s"
  "holdZoomFrameId (rendererUpdatePalette p s) = holdZoomFrameId s"
  "holdLastViewport (rendererUpdatePalette p s) = holdLastViewport s"
  "lastViewport (rendererUpdatePalette p s) = lastViewport s"
  "lastSettings (rendererUpdatePalette p s) = lastSettings s"
  "effects (rendererUpdatePalette p s) = effects s @ [RendererUpdatePalette p]"
  by (simp_all add: rendererUpdatePalette_def)

lemma callOnComplete_simps [simp]:
  "frames (callOnComplete oc v s) = frames s"
  "timers (callOnComplete oc v s) = timers s"
  "nextFrame (callOnComplete oc v s) = nextFrame s"
  "nextTimer (callOnComplete oc v s) = nextTimer s"
  "renderRequestId (callOnComplete oc v s) = renderRequestId s"
  "debounceTimeoutId (callOnComplete oc v s) = debounceTimeoutId s"
  "animationFrameId (callOnComplete oc v s) = animationFrameId s"
  "holdZoomFrameId (callOnComplete oc v s) = holdZoomFrameId s"
  "holdLastViewport (callOnComplete oc v s) = holdLastViewport s"
  "lastViewport (callOnComplete oc v s) = lastViewport s"
  "lastSettings (callOnComplete oc v s) = lastSettings s"
  by (simp_all add: callOnComplete_def split: option.splits)


lemma handleOf_effect_simps [simp]:
  "handleOf k (rendererRender v st s) = handleOf k s"
  "handleOf k (rendererUpdatePalette p s) = handleOf k s"
  "handleOf k (callOnComplete oc v s) = handleOf k s"
  "handleOf k (s\<lparr>holdLastViewport := x\<rparr>) = handleOf k s"
  "handleOf k (s\<lparr>lastViewport := y\<rparr>) = handleOf k s"
  "handleOf k (s\<lparr>lastSettings := z\<rparr>) = handleOf k s"
  "handleOf k (s\<lparr>debounceTimeoutId := d\<rparr>) = handleOf k s"
  "handleOf k (s\<lparr>effects := e\<rparr>) = handleOf k s"
  "handleOf k (s\<lparr>frames := fs\<rparr>) = handleOf k s"
  "handleOf k (s\<lparr>timers := ts\<rparr>) = handleOf k s"
  "handleOf k (s\<lparr>nextFrame := n\<rparr>) = handleOf k s"
  "handleOf k (s\<lparr>nextTimer := n\<rparr>) = handleOf k s"
  by (cases k; simp)+

lemma running_effect_simps [simp]:
  "running k (rendererRender v st s) = running k s"
  "running k (rendererUpdatePalette p s) = running k s"
  "running k (callOnComplete oc v s) = running k s"
  "running k (s\<lparr>holdLastViewport := x\<rparr>) = running k s"
  "running k (s\<lparr>lastViewport := y\<rparr>) = running k s"
  "running k (s\<lparr>lastSettings := z\<rparr>) = running k s"
  "running k (s\<lparr>debounceTimeoutId := d\<rparr>) = running k s"
  "running k (s\<lparr>animationFrameId := d\<rparr>) = running k s"
  "running k (s\<lparr>holdZoomFrameId := d\<rparr>) = running k s"
  "running k (s\<lparr>renderRequestId := d\<rparr>) = running k s"
  "running k (s\<lparr>timers := ts\<rparr>) = running k s"
  "running k (s\<lparr>nextFrame := n\<rparr>) = running k s"
  "running k (s\<lparr>nextTimer := n\<rparr>) = running k s"
  by (simp_all add: running_def)



lemma tracked_effect_simps [simp]:
  "tracked (rendererRender v st s) = tracked s"
  "tracked (rendererUpdatePalette p s) = tracked s"
  "tracked (callOnComplete oc v s) = tracked s"
  "tracked (s\<lparr>holdLastViewport := x\<rparr>) = tracked s"
  "tracked (s\<lparr>lastViewport := y\<rparr>) = tracked s"
  "tracked (s\<lparr>lastSettings := z\<rparr>) = tracked s"
  by (simp_all add: tracked_def)














lemma request_simps:
  "fst (requestAnimationFrame cb s) = nextFrame s"
  "snd (requestAnimationFrame cb s) =
     s\<lparr>frames := frames s @ [(nextFrame s, cb)], nextFrame := nextFrame s + 1\<rparr>"
  "fst (setTimeout tc s) = nextTimer s"
  "snd (setTimeout tc s) =
     s\<lparr>timers := timers s @ [(nextTimer s, tc)], nextTimer := nextTimer s + 1\<rparr>"
  by (simp_all add: requestAnimationFrame_def setTimeout_def)

lemma initial_fields:
  "renderRequestId initial = None" "debounceTimeoutId initial = None"
  "animationFrameId initial = None" "holdZoomFrameId initial = None"
  "holdLastViewport initial = None" "lastViewport initial = None"
  "lastSettings initial = None" "frames initial = []" "timers initial = []"
  "nextFrame initial = 1" "nextTimer initial = 1" "effects initial = []"
  by (simp_all add: initial_def)

subsection \<open>Cancelling one pending callback\<close>

lemma clearHold_fields [simp]:
  "timers (ifHandle hdl (\<lambda>h w. (cancelAnimationFrame h w)\<lparr>holdZoomFrameId := None\<rparr>) s) = timers s"
  "nextFrame (ifHandle hdl (\<lambda>h w. (cancelAnimationFrame h w)\<lparr>holdZoomFrameId := None\<rparr>) s) = nextFrame s"
  "nextTimer (ifHandle hdl (\<lambda>h w. (cancelAnimationFrame h w)\<lparr>holdZoomFrameId := None\<rparr>) s) = nextTimer s"
  "animationFrameId (ifHandle hdl (\<lambda>h w. (cancelAnimationFrame h w)\<lparr>holdZoomFrameId := None\<rparr>) s) = animationFrameId s"
  "renderRequestId (ifHandle hdl (\<lambda>h w. (cancelAnimationFrame h w)\<lparr>holdZoomFrameId := None\<rparr>) s) = renderRequestId s"
  "debounceTimeoutId (ifHandle hdl (\<lambda>h w. (cancelAnimationFrame h w)\<lparr>holdZoomFrameId := None\<rparr>) s) = debounceTimeoutId s"
  "holdLastViewport (ifHandle hdl (\<lambda>h w. (cancelAnimationFrame h w)\<lparr>holdZoomFrameId := None\<rparr>) s) = holdLastViewport s"
  "lastViewport (ifHandle hdl (\<lambda>h w. (cancelAnimationFrame h w)\<lparr>holdZoomFrameId := None\<rparr>) s) = lastViewport s"
  "lastSettings (ifHandle hdl (\<lambda>h w. (cancelAnimationFrame h w)\<lparr>holdZoomFrameId := None\<rparr>) s) = lastSettings s"
  "effects (ifHandle hdl (\<lambda>h w. (cancelAnimationFrame h w)\<lparr>holdZoomFrameId := None\<rparr>) s) = effects s"
  by (simp_all add: ifHandle_def cancelAnimationFrame_def split: option.splits)

lemma clearZoom_fields [simp]:
  "timers (ifHandle hdl (\<lambda>h w. (cancelAnimationFrame h w)\<lparr>animationFrameId := None\<rparr>) s) = timers s"
  "nextFrame (ifHandle hdl (\<lambda>h w. (cancelAnimationFrame h w)\<lparr>animationFrameId := None\<rparr>) s) = nextFrame s"
  "nextTimer (ifHandle hdl (\<lambda>h w. (cancelAnimationFrame h w)\<lparr>animationFrameId := None\<rparr>) s) = nextTimer s"
  "holdZoomFrameId (ifHandle hdl (\<lambda>h w. (cancelAnimationFrame h w)\<lparr>animationFrameId := None\<rparr>) s) = holdZoomFrameId s"
  "renderRequestId (ifHandle hdl (\<lambda>h w. (cancelAnimationFrame h w)\<lparr>animationFrameId := None\<rparr>) s) = renderRequestId s"
  "debounceTimeoutId (ifHandle hdl (\<lambda>h w. (cancelAnimationFrame h w)\<lparr>animationFrameId := None\<rparr>) s) = debounceTimeoutId s"
  "holdLastViewport (ifHandle hdl (\<lambda>h w. (cancelAnimationFrame h w)\<lparr>animationFrameId := None\<rparr>) s) = holdLastViewport s"
  "lastViewport (ifHandle hdl (\<lambda>h w. (cancelAnimationFrame h w)\<lparr>animationFrameId := None\<rparr>) s) = lastViewport s"
  "lastSettings (ifHandle hdl (\<lambda>h w. (cancelAnimationFrame h w)\<lparr>animationFrameId := None\<rparr>) s) = lastSettings s"
  "effects (ifHandle hdl (\<lambda>h w. (cancelAnimationFrame h w)\<lparr>animationFrameId := None\<rparr>) s) = effects s"
  by (simp_all add: ifHandle_def cancelAnimationFrame_def split: option.splits)

lemma clearRender_fields [simp]:
  "timers (ifHandle hdl (\<lambda>h w. (cancelAnimationFrame h w)\<lparr>renderRequestId := None\<rparr>) s) = timers s"
  "nextFrame (ifHandle hdl (\<lambda>h w. (cancelAnimationFrame h w)\<lparr>renderRequestId := None\<rparr>) s) = nextFrame s"
  "nextTimer (ifHandle hdl (\<lambda>h w. (cancelAnimationFrame h w)\<lparr>renderRequestId := None\<rparr>) s) = nextTimer s"
  "holdZoomFrameId (ifHandle hdl (\<lambda>h w. (cancelAnimationFrame h w)\<lparr>renderRequestId := None\<rparr>) s) = holdZoomFrameId s"
  "animationFrameId (ifHandle hdl (\<lambda>h w. (cancelAnimationFrame h w)\<lparr>renderRequestId := None\<rparr>) s) = animationFrameId s"
  "debounceTimeoutId (ifHandle hdl (\<lambda>h w. (cancelAnimationFrame h w)\<lparr>renderRequestId := None\<rparr>) s) = debounceTimeoutId s"
  "holdLastViewport (ifHandle hdl (\<lambda>h w. (cancelAnimationFrame h w)\<lparr>renderRequestId := None\<rparr>) s) = holdLastViewport s"
  "lastViewport (ifHandle hdl (\<lambda>h w. (cancelAnimationFrame h w)\<lparr>renderRequestId := None\<rparr>) s) = lastViewport s"
  "lastSettings (ifHandle hdl (\<lambda>h w. (cancelAnimationFrame h w)\<lparr>renderRequestId := None\<rparr>) s) = lastSettings s"
  "effects (ifHandle hdl (\<lambda>h w. (cancelAnimationFrame h w)\<lparr>renderRequestId := None\<rparr>) s) = effects s"
  by (simp_all add: ifHandle_def cancelAnimationFrame_def split: option.splits)

lemma dropRender_fields [simp]:
  "timers (ifHandle hdl (\<lambda>h w. cancelAnimationFrame h w) s) = timers s"
  "nextFrame (ifHandle hdl (\<lambda>h w. cancelAnimationFrame h w) s) = nextFrame s"
  "nextTimer (ifHandle hdl (\<lambda>h w. cancelAnimationFrame h w) s) = nextTimer s"
  "holdZoomFrameId (ifHandle hdl (\<lambda>h w. cancelAnimationFrame h w) s) = holdZoomFrameId s"
  "animationFrameId (ifHandle hdl (\<lambda>h w. cancelAnimationFrame h w) s) = animationFrameId s"
  "renderRequestId (ifHandle hdl (\<lambda>h w. cancelAnimationFrame h w) s) = renderRequestId s"
  "debounceTimeoutId (ifHandle hdl (\<lambda>h w. cancelAnimationFrame h w) s) = debounceTimeoutId s"
  "holdLastViewport (ifHandle hdl (\<lambda>h w. cancelAnimationFrame h w) s) = holdLastViewport s"
  "lastViewport (ifHandle hdl (\<lambda>h w. cancelAnimationFrame h w) s) = lastViewport s"
  "lastSettings (ifHandle hdl (\<lambda>h w. cancelAnimationFrame h w) s) = lastSettings s"
  "effects (ifHandle hdl (\<lambda>h w. cancelAnimationFrame h w) s) = effects s"
  by (simp_all add: ifHandle_def cancelAnimationFrame_def split: option.splits)

lemma clearDebounce_fields [simp]:
  "frames (ifHandle hdl (\<lambda>h w. (clearTimeout h w)\<lparr>debounceTimeoutId := None\<rparr>) s) = frames s"
  "nextFrame (ifHandle hdl (\<lambda>h w. (clearTimeout h w)\<lparr>debounceTimeoutId := None\<rparr>) s) = nextFrame s"
  "nextTimer (ifHandle hdl (\<lambda>h w. (clearTimeout h w)\<lparr>debounceTimeoutId := None\<rparr>) s) = nextTimer s"
  "holdZoomFrameId (ifHandle hdl (\<lambda>h w. (clearTimeout h w)\<lparr>debounceTimeoutId := None\<rparr>) s) = holdZoomFrameId s"
  "animationFrameId (ifHandle hdl (\<lambda>h w. (clearTimeout h w)\<lparr>debounceTimeoutId := None\<rparr>) s) = animationFrameId s"
  "renderRequestId (ifHandle hdl (\<lambda>h w. (clearTimeout h w)\<lparr>debounceTimeoutId := None\<rparr>) s) = renderRequestId s"
  "holdLastViewport (ifHandle hdl (\<lambda>h w. (clearTimeout h w)\<lparr>debounceTimeoutId := None\<rparr>) s) = holdLastViewport s"
  "lastViewport (ifHandle hdl (\<lambda>h w. (clearTimeout h w)\<lparr>debounceTimeoutId := None\<rparr>) s) = lastViewport s"
  "lastSettings (ifHandle hdl (\<lambda>h w. (clearTimeout h w)\<lparr>debounceTimeoutId := None\<rparr>) s) = lastSettings s"
  "effects (ifHandle hdl (\<lambda>h w. (clearTimeout h w)\<lparr>debounceTimeoutId := None\<rparr>) s) = effects s"
  by (simp_all add: ifHandle_def clearTimeout_def split: option.splits)

lemma dropDebounce_fields [simp]:
  "frames (ifHandle hdl (\<lambda>h w. clearTimeout h w) s) = frames s"
  "nextFrame (ifHandle hdl (\<lambda>h w. clearTimeout h w) s) = nextFrame s"
  "nextTimer (ifHandle hdl (\<lambda>h w. clearTimeout h w) s) = nextTimer s"
  "holdZoomFrameId (ifHandle hdl (\<lambda>h w. clearTimeout h w) s) = holdZoomFrameId s"
  "animationFrameId (ifHandle hdl (\<lambda>h w. clearTimeout h w) s) = animationFrameId s"
  "renderRequestId (ifHandle hdl (\<lambda>h w. clearTimeout h w) s) = renderRequestId s"
  "debounceTimeoutId (ifHandle hdl (\<lambda>h w. clearTimeout h w) s) = debounceTimeoutId s"
  "holdLastViewport (ifHandle hdl (\<lambda>h w. clearTimeout h w) s) = holdLastViewport s"
  "lastViewport (ifHandle hdl (\<lambda>h w. clearTimeout h w) s) = lastViewport s"
  "lastSettings (ifHandle hdl (\<lambda>h w. clearTimeout h w) s) = lastSettings s"
  "effects (ifHandle hdl (\<lambda>h w. clearTimeout h w) s) = effects s"
  by (simp_all add: ifHandle_def clearTimeout_def split: option.splits)











subsection \<open>Arming a callback\<close>







subsection \<open>The methods keep the invariant\<close>


lemma cancel_fields [simp]:
  "nextFrame (cancel s) = nextFrame s"
  "nextTimer (cancel s) = nextTimer s"
  "holdLastViewport (cancel s) = None"
  "lastViewport (cancel s) = lastViewport s"
  "lastSettings (cancel s) = lastSettings s"
  "effects (cancel s) = effects s"
  by (simp_all add: cancel_def Let_def)







lemma performRender_simps [simp]:
  "frames (performRender s) = frames s"
  "timers (performRender s) = timers s"
  "nextFrame (performRender s) = nextFrame s"
  "nextTimer (performRender s) = nextTimer s"
  "renderRequestId (performRender s) = renderRequestId s"
  "debounceTimeoutId (performRender s) = debounceTimeoutId s"
  "animationFrameId (performRender s) = animationFrameId s"
  "holdZoomFrameId (performRender s) = holdZoomFrameId s"
  "holdLastViewport (performRender s) = holdLastViewport s"
  "lastViewport (performRender s) = lastViewport s"
  "lastSettings (performRender s) = lastSettings s"
  "tracked (performRender s) = tracked s"
  "running k (performRender s) = running k s"
  by (simp_all add: performRender_def split: option.splits)










subsection \<open>The stored hold-zoom viewport\<close>

lemma stopHoldZoom_fields [simp]:
  "holdLastViewport (stopHoldZoom st oc s) = None"
  "timers (stopHoldZoom st oc s) = timers s"
  "nextFrame (stopHoldZoom st oc s) = nextFrame s"
  by (simp_all add: stopHoldZoom_def Let_def split: option.splits)

lemma stopHoldZoom_nothing_stored:
  assumes "holdLastViewport s = None"
  shows "effects (stopHoldZoom st oc s) = effects s"
    and "lastViewport (stopHoldZoom st oc s) = lastViewport s"
    and "lastSettings (stopHoldZoom st oc s) = lastSettings s"
  using assms by (simp_all add: stopHoldZoom_def Let_def)

lemma animateZoom_holdLastViewport [simp]:
  "holdLastViewport (animateZoom v st tg ar oc now s) = None"
  by (simp add: animateZoom_def Let_def split_def request_simps)

lemma startHoldZoom_holdLastViewport [simp]:
  "holdLastViewport (startHoldZoom v st tg ar now s) = None"
  by (simp add: startHoldZoom_def Let_def split_def request_simps)

lemma keep_holdLastViewport [simp]:
  "holdLastViewport (startInteraction s) = holdLastViewport s"
  "holdLastViewport (scheduleRender s) = holdLastViewport s"
  "holdLastViewport (endInteraction s) = holdLastViewport s"
  "holdLastViewport (render v st debounce s) = holdLastViewport s"
  "holdLastViewport (zoomStep v st tg ar oc t0 now s) = holdLastViewport s"
  "holdLastViewport (timeoutFires h s) = holdLastViewport s"
proof -
  show "holdLastViewport (startInteraction s) = holdLastViewport s"
    by (simp add: startInteraction_def)
  show a: "holdLastViewport (scheduleRender s) = holdLastViewport s"
    by (simp add: scheduleRender_def Let_def split_def request_simps)
  show "holdLastViewport (endInteraction s) = holdLastViewport s"
    using a by (simp add: endInteraction_def)
  show "holdLastViewport (render v st debounce s) = holdLastViewport s"
    by (simp add: render_def Let_def split_def request_simps)
  show "holdLastViewport (zoomStep v st tg ar oc t0 now s) = holdLastViewport s"
    by (simp add: zoomStep_def Let_def split_def request_simps)
  show "holdLastViewport (timeoutFires h s) = holdLastViewport s"
  proof (cases "map_of (timers s) h")
    case None
    then show ?thesis by (simp add: timeoutFires_def)
  next
    case (Some cb)
    then show ?thesis by (cases cb) (simp add: timeoutFires_def)
  qed
qed

lemma frameFires_holdLastViewport:
  assumes "\<not> runsHoldFrame (FrameFires h now) s"
  shows "holdLastViewport (frameFires h now s) = holdLastViewport s"
proof (cases "map_of (frames s) h")
  case None
  then show ?thesis by (simp add: frameFires_def)
next
  case (Some cb)
  then have "driverOf cb \<noteq> HoldZoomLoop" using assms by simp
  then show ?thesis using Some by (cases cb) (simp_all add: frameFires_def)
qed

lemma resetsHold_clears:
  "resetsHold e \<Longrightarrow> holdLastViewport (apply_event e s) = None"
  by (cases e) simp_all

lemma apply_event_keeps_none:
  assumes "holdLastViewport s = None" and "\<not> runsHoldFrame e s"
  shows "holdLastViewport (apply_event e s) = None"
proof (cases e)
  case (FrameFires h now)
  then show ?thesis using assms frameFires_holdLastViewport [of h now s] by simp
qed (use assms in simp_all)

lemma run_keeps_none:
  "holdLastViewport s = None \<Longrightarrow> noHoldFrame es s \<Longrightarrow> holdLastViewport (run es s) = None"
  by (induction es arbitrary: s) (simp_all add: apply_event_keeps_none)

text \<open>
  Claim C10. After a call that empties the stored hold-zoom viewport (\<^verbatim>\<open>startHoldZoom\<close>,
  \<^verbatim>\<open>cancel\<close>, also through \<^verbatim>\<open>animateZoom\<close>, or \<^verbatim>\<open>stopHoldZoom\<close> itself) and any events
  since then that run no hold-zoom frame, \<^verbatim>\<open>stopHoldZoom\<close> calls neither the renderer
  nor the completion callback, and it leaves the last-render viewport and settings of
  the controller as they are. The state before the emptying call is arbitrary.
\<close>

theorem stopHoldZoom_without_stored_viewport:
  assumes "resetsHold e" and "noHoldFrame es (apply_event e s)"
  shows "effects (stopHoldZoom st oc (run es (apply_event e s))) = effects (run es (apply_event e s)) \<and>
         lastViewport (stopHoldZoom st oc (run es (apply_event e s)))
           = lastViewport (run es (apply_event e s)) \<and>
         lastSettings (stopHoldZoom st oc (run es (apply_event e s)))
           = lastSettings (run es (apply_event e s))"
proof -
  have "holdLastViewport (apply_event e s) = None"
    using assms(1) by (rule resetsHold_clears)
  then have "holdLastViewport (run es (apply_event e s)) = None"
    using assms(2) by (rule run_keeps_none)
  then show ?thesis by (simp add: stopHoldZoom_nothing_stored)
qed


theorem stopHoldZoom_without_stored_viewport_witness:
  "effects (run [StartHoldZoom initialViewport initialRenderSettings (Fin 0, Fin 0) (Fin (16 / 9)) (Fin 0),
                 FrameFires 1 (Fin 16),
                 StopHoldZoom initialRenderSettings (Some 7),
                 StopHoldZoom initialRenderSettings (Some 7)] initial)
     = effects (run [StartHoldZoom initialViewport initialRenderSettings (Fin 0, Fin 0) (Fin (16 / 9)) (Fin 0),
                 FrameFires 1 (Fin 16),
                 StopHoldZoom initialRenderSettings (Some 7)] initial) \<and>
   effects (run [StartHoldZoom initialViewport initialRenderSettings (Fin 0, Fin 0) (Fin (16 / 9)) (Fin 0),
                 StopHoldZoom initialRenderSettings (Some 7)] initial)
     = effects (run [StartHoldZoom initialViewport initialRenderSettings (Fin 0, Fin 0) (Fin (16 / 9)) (Fin 0)]
                  initial) \<and>
   lastViewport (run [StartHoldZoom initialViewport initialRenderSettings (Fin 0, Fin 0) (Fin (16 / 9)) (Fin 0),
                 StopHoldZoom initialRenderSettings (Some 7)] initial) = None \<and>
   effects (run [StartHoldZoom initialViewport initialRenderSettings (Fin 0, Fin 0) (Fin (16 / 9)) (Fin 0),
                 FrameFires 1 (Fin 16),
                 Cancel,
                 StopHoldZoom initialRenderSettings (Some 7)] initial)
     = effects (run [StartHoldZoom initialViewport initialRenderSettings (Fin 0, Fin 0) (Fin (16 / 9)) (Fin 0),
                 FrameFires 1 (Fin 16),
                 Cancel] initial)"
  using stopHoldZoom_without_stored_viewport
      [of "StopHoldZoom initialRenderSettings (Some 7)" "[]"
          "run [StartHoldZoom initialViewport initialRenderSettings (Fin 0, Fin 0) (Fin (16 / 9)) (Fin 0),
                 FrameFires 1 (Fin 16)] initial" initialRenderSettings "Some 7"]
    stopHoldZoom_without_stored_viewport
      [of "StartHoldZoom initialViewport initialRenderSettings (Fin 0, Fin 0) (Fin (16 / 9)) (Fin 0)" "[]"
          initial initialRenderSettings "Some 7"]
    stopHoldZoom_without_stored_viewport
      [of Cancel "[]"
          "run [StartHoldZoom initialViewport initialRenderSettings (Fin 0, Fin 0) (Fin (16 / 9)) (Fin 0),
                 FrameFires 1 (Fin 16)] initial" initialRenderSettings "Some 7"]
  by (simp add: startHoldZoom_def cancel_def ifHandle_def Let_def split_def request_simps
      initial_fields)

subsection \<open>At most one timing source of each kind\<close>







subsection \<open>Two drivers never hold the same handle\<close>

lemma weakened_refl [simp]: "weakened s s"
  by (simp add: weakened_def)



lemma handleOf_performRender [simp]: "handleOf k (performRender s) = handleOf k s"
  by (cases k) simp_all



























subsection \<open>A zoom animation started during a hold-zoom\<close>
















end
